theory Spec2Isabelle
  imports Main "HOL-Library.Word"
begin

unbundle bit_operations_syntax

section \<open>waitexit: countdown in a terminal, ended by a key press\<close>

text \<open>
  The program embedded here is the current \<^verbatim>\<open>waitexit.c\<close> (the variant with the options
  \<^verbatim>\<open>-s -h -z -f -e CODE -m MSG\<close>). C strings are \<open>string\<close> (the bytes before the
  terminating NUL), \<^verbatim>\<open>int\<close> values that are only compared, decremented towards zero or
  subtracted from one another are \<open>int\<close>, the option bits are a \<open>32 word\<close> and the exit code
  an \<open>8 word\<close>, as the fields of \<^verbatim>\<open>Settings\<close> are declared. The functions of the C
  library the program calls (\<^verbatim>\<open>getopt\<close>, \<^verbatim>\<open>sscanf\<close>, \<^verbatim>\<open>sprintf\<close>, \<^verbatim>\<open>select\<close>, the
  terminal interface) are modelled as far as the program uses them; \<^verbatim>\<open>setvbuf\<close> has no
  counterpart here, and of the word wrapping of the help text only the fact that it may
  fail to return. A signal that ends the process is an event of the environment.

  The repository also holds earlier variants of the file, without \<^verbatim>\<open>-m\<close>, \<^verbatim>\<open>-f\<close> and
  \<^verbatim>\<open>-z\<close>. Their \<^verbatim>\<open>init_termio\<close>, \<^verbatim>\<open>reset_termio\<close> and argument checks are the same,
  and their loop is the one below with the default message, which they print with
  \<^verbatim>\<open>fprintf\<close> and no buffer.
\<close>

subsection \<open>Formatting an integer: \<^verbatim>\<open>sprintf(dst, "%d", n)\<close>\<close>

definition digit_char :: "nat \<Rightarrow> char" where
  "digit_char d = char_of (48 + d)"

fun decimal :: "nat \<Rightarrow> string" where
  "decimal n = (if n < 10 then [digit_char n] else decimal (n div 10) @ [digit_char (n mod 10)])"

declare decimal.simps [simp del]

definition sprintf_d :: "int \<Rightarrow> string" where
  "sprintf_d n = (if n < 0 then CHR ''-'' # decimal (nat (- n)) else decimal (nat n))"

subsection \<open>The message renderer: \<^verbatim>\<open>prepare_message\<close>\<close>

text \<open>
  \<^verbatim>\<open>
  static void prepare_message(char* dst, const char* template, const int seconds_left) {
    const size_t template_len = strlen(template);
    for (unsigned int i=0; i<template_len; i++) {
      const char c = template[i];
      switch (c) {
      case '\n':
      case '\r':
        continue;
      case '%':
        if (i<template_len-1 && template[i+1] == 'S') {
          dst += sprintf(dst, "%d", seconds_left);
          ++i;
          continue;
        }
      default:
        *(dst++) = c;
      }
    }
    *dst = 0;
  }
  \<close>
  The loop is \<open>prepare_message_loop\<close>: \<open>i\<close> is the loop index and \<open>dst\<close> the bytes written
  so far. A percent sign that is not followed by \<open>S\<close> falls through to the default case.
  The function does not know the size of the buffer it writes to; its one caller, \<open>main\<close>,
  passes a buffer of 1024 bytes, and the bound is checked there.
\<close>

function prepare_message_loop :: "string \<Rightarrow> nat \<Rightarrow> int \<Rightarrow> string \<Rightarrow> string" where
  "prepare_message_loop template i seconds_left dst =
     (if i < length template then
        (let c = template ! i in
         if c = CHR 0x0A \<or> c = CHR 0x0D then
           prepare_message_loop template (i + 1) seconds_left dst
         else if c = CHR ''%'' \<and> i < length template - 1 \<and> template ! (i + 1) = CHR ''S'' then
           prepare_message_loop template (i + 1 + 1) seconds_left (dst @ sprintf_d seconds_left)
         else
           prepare_message_loop template (i + 1) seconds_left (dst @ [c]))
      else dst)"
  by pat_completeness auto
termination
  by (relation "measure (\<lambda>(template, i, seconds_left, dst). length template - i)") auto

declare prepare_message_loop.simps [simp del]

definition prepare_message :: "string \<Rightarrow> int \<Rightarrow> string" where
  "prepare_message template seconds_left = prepare_message_loop template 0 seconds_left []"

text \<open>
  The renderer as the specification words it: scan the template from left to right, replace
  the sequence percent, upper-case S by the decimal number, drop carriage returns and line
  feeds, and copy every other character.
\<close>

fun render :: "string \<Rightarrow> int \<Rightarrow> string" where
  "render [] s = []"
| "render (c # cs) s =
     (if c = CHR 0x0A \<or> c = CHR 0x0D then render cs s
      else if c = CHR ''%'' \<and> cs \<noteq> [] \<and> hd cs = CHR ''S'' then sprintf_d s @ render (tl cs) s
      else c # render cs s)"

definition is_line_break :: "char \<Rightarrow> bool" where
  "is_line_break c \<longleftrightarrow> c = CHR 0x0A \<or> c = CHR 0x0D"

definition strip_line_breaks :: "string \<Rightarrow> string" where
  "strip_line_breaks t = filter (\<lambda>c. \<not> is_line_break c) t"

fun has_placeholder :: "string \<Rightarrow> bool" where
  "has_placeholder (c # d # cs) = ((c = CHR ''%'' \<and> d = CHR ''S'') \<or> has_placeholder (d # cs))"
| "has_placeholder cs = False"

subsection \<open>Reading an integer: \<^verbatim>\<open>sscanf(s, "%i", &val)\<close>\<close>

text \<open>
  The C library's conversion \<^verbatim>\<open>%i\<close>: white space is skipped, a sign is optional, the
  prefix \<^verbatim>\<open>0x\<close> selects base 16 and a leading \<^verbatim>\<open>0\<close> base 8, and the longest run of
  digits is converted; what follows the digits is left unread (a prefix \<^verbatim>\<open>0x\<close> with no
  hexadecimal digit after it is read as the number 0 followed by text). \<open>sscanf_i s = None\<close>
  stands for a return value other than 1 (no digit found), \<open>Some v\<close> for the return value
  1 with the number \<open>v\<close> read. C leaves the behaviour undefined when \<open>v\<close> is not
  representable in an \<^verbatim>\<open>int\<close>; the callers below make that case a \<open>fault\<close>.
\<close>

definition isspace :: "char \<Rightarrow> bool" where
  "isspace c \<longleftrightarrow> c \<in> {CHR '' '', CHR 0x09, CHR 0x0A, CHR 0x0B, CHR 0x0C, CHR 0x0D}"

definition digit_value :: "char \<Rightarrow> nat option" where
  "digit_value c =
     (let n = (of_char c :: nat) in
      if 48 \<le> n \<and> n \<le> 57 then Some (n - 48)
      else if 97 \<le> n \<and> n \<le> 102 then Some (n - 87)
      else if 65 \<le> n \<and> n \<le> 70 then Some (n - 55)
      else None)"

definition is_digit_of :: "nat \<Rightarrow> char \<Rightarrow> bool" where
  "is_digit_of base c = (case digit_value c of None \<Rightarrow> False | Some d \<Rightarrow> d < base)"

fun scan_digits :: "nat \<Rightarrow> string \<Rightarrow> nat option \<Rightarrow> nat option" where
  "scan_digits base [] acc = acc"
| "scan_digits base (c # cs) acc =
     (if is_digit_of base c
      then scan_digits base cs
             (Some (base * (case acc of None \<Rightarrow> 0 | Some a \<Rightarrow> a) + the (digit_value c)))
      else acc)"

definition scan_unsigned :: "string \<Rightarrow> nat option" where
  "scan_unsigned s =
     (if (take 2 s = ''0x'' \<or> take 2 s = ''0X'') \<and> 2 < length s \<and> is_digit_of 16 (s ! 2)
      then scan_digits 16 (drop 2 s) None
      else if s \<noteq> [] \<and> hd s = CHR ''0'' then scan_digits 8 s None
      else scan_digits 10 s None)"

definition sscanf_i :: "string \<Rightarrow> int option" where
  "sscanf_i s =
     (case dropWhile isspace s of
        [] \<Rightarrow> None
      | c # cs \<Rightarrow>
          if c = CHR ''-'' then map_option (\<lambda>n. - int n) (scan_unsigned cs)
          else if c = CHR ''+'' then map_option int (scan_unsigned cs)
          else map_option int (scan_unsigned (c # cs)))"

definition INT_MIN :: int where "INT_MIN = - 2147483648"
definition INT_MAX :: int where "INT_MAX = 2147483647"

definition int_representable :: "int \<Rightarrow> bool" where
  "int_representable v \<longleftrightarrow> INT_MIN \<le> v \<and> v \<le> INT_MAX"

text \<open>The behaviours of the program that C leaves undefined; the model stops there.\<close>

datatype fault =
    Conversion_overflow  \<comment> \<open>\<^verbatim>\<open>%i\<close> read a number that does not fit \<^verbatim>\<open>int val\<close>\<close>
  | Buffer_overrun       \<comment> \<open>the rendered line does not fit \<^verbatim>\<open>char msg[1024]\<close>\<close>
  | Usage_overrun        \<comment> \<open>\<^verbatim>\<open>print_aligned\<close> writes beyond its buffer\<close>

subsection \<open>Command line options: \<^verbatim>\<open>getopt(argc, argv, "shzfe:m:")\<close>\<close>

text \<open>
  One call of the C library's \<^verbatim>\<open>getopt\<close> returns an option character and sets
  \<^verbatim>\<open>optarg\<close>, or returns \<^verbatim>\<open>'?'\<close> after writing a diagnostic to standard error (the
  program sets \<^verbatim>\<open>opterr = 1\<close>). \<open>getopt_scan\<close> lists the results of the successive calls
  and the arguments left at \<^verbatim>\<open>argv[optind]\<close> onwards, as GNU getopt produces them:
  options may be clustered (\<^verbatim>\<open>-sz\<close>), an option argument is the rest of the word or the
  next word, other words are skipped and kept in order, and \<^verbatim>\<open>--\<close> ends the options.
\<close>

datatype getopt_ret =
    Opt char string          \<comment> \<open>option character and \<^verbatim>\<open>optarg\<close> (empty for a flag)\<close>
  | Invalid_option char      \<comment> \<open>\<^verbatim>\<open>'?'\<close>: the character is not in the option string\<close>
  | Missing_argument char    \<comment> \<open>\<^verbatim>\<open>'?'\<close>: \<^verbatim>\<open>-e\<close> or \<^verbatim>\<open>-m\<close> is the last word\<close>

definition optstring_flags :: "char list" where
  "optstring_flags = ''shzf''"

definition optstring_with_argument :: "char list" where
  "optstring_with_argument = ''em''"

fun getopt_scan :: "string \<Rightarrow> string list \<Rightarrow> string list \<Rightarrow> getopt_ret list \<times> string list" where
  "getopt_scan [] [] nonopts = ([], nonopts)"
| "getopt_scan [] (a # args) nonopts =
     (if a = ''--'' then ([], nonopts @ args)
      else if 2 \<le> length a \<and> hd a = CHR ''-'' then getopt_scan (tl a) args nonopts
      else getopt_scan [] args (nonopts @ [a]))"
| "getopt_scan (c # cs) args nonopts =
     (if c \<in> set optstring_with_argument then
        (if cs \<noteq> [] then apfst ((#) (Opt c cs)) (getopt_scan [] args nonopts)
         else (case args of
                 [] \<Rightarrow> ([Missing_argument c], nonopts)
               | a # args' \<Rightarrow> apfst ((#) (Opt c a)) (getopt_scan [] args' nonopts)))
      else if c \<in> set optstring_flags then apfst ((#) (Opt c [])) (getopt_scan cs args nonopts)
      else apfst ((#) (Invalid_option c)) (getopt_scan cs args nonopts))"

definition getopt_char :: "getopt_ret \<Rightarrow> char" where
  "getopt_char r = (case r of Opt c a \<Rightarrow> c | Invalid_option c \<Rightarrow> CHR ''?'' | Missing_argument c \<Rightarrow> CHR ''?'')"

definition getopt_optarg :: "getopt_ret \<Rightarrow> string" where
  "getopt_optarg r = (case r of Opt c a \<Rightarrow> a | Invalid_option c \<Rightarrow> [] | Missing_argument c \<Rightarrow> [])"

definition getopt_diagnostic :: "string \<Rightarrow> getopt_ret \<Rightarrow> string" where
  "getopt_diagnostic prog r =
     (case r of
        Opt c a \<Rightarrow> []
      | Invalid_option c \<Rightarrow> prog @ '': invalid option -- '' @ [CHR 0x27, c, CHR 0x27, CHR 0x0A]
      | Missing_argument c \<Rightarrow>
          prog @ '': option requires an argument -- '' @ [CHR 0x27, c, CHR 0x27, CHR 0x0A])"

subsection \<open>Settings and \<^verbatim>\<open>parse_arguments\<close>\<close>

record Settings =
  countdown :: int
  opts :: "32 word"
  exitcode :: "8 word"
  template :: string

definition OPT_SILENT :: "32 word" where "OPT_SILENT = 0x1"
definition OPT_HELP :: "32 word" where "OPT_HELP = 0x2"
definition OPT_SUPPRESS_EXIT_INFO :: "32 word" where "OPT_SUPPRESS_EXIT_INFO = 0x4"
definition OPT_FAIL_NO_USER_INTERACTION :: "32 word" where "OPT_FAIL_NO_USER_INTERACTION = 0x8"

definition DEFAULT_MSG_TEMPLATE :: string where
  "DEFAULT_MSG_TEMPLATE = ''Waiting for %S seconds, press any key to exit..''"

definition initial_settings :: Settings where
  "initial_settings =
     \<lparr>countdown = - 1, opts = 0, exitcode = 0, template = DEFAULT_MSG_TEMPLATE\<rparr>"

text \<open>
  \<open>Accepted\<close> is a non-zero return value with the settings filled in, \<open>Rejected msg\<close>
  the return value 0 after \<open>msg\<close> has gone to standard error (from the program, or from
  \<^verbatim>\<open>getopt\<close> in the case \<^verbatim>\<open>'?'\<close>).
\<close>

datatype parse_result = Undefined fault | Rejected string | Accepted Settings

definition strnlen :: "string \<Rightarrow> nat \<Rightarrow> nat" where
  "strnlen s n = min (length s) n"

text \<open>
  \<^verbatim>\<open>
  while ((c = getopt(argc, argv, "shzfe:m:")) != -1) {
    switch(c) {
    case 's': settings->opts |= OPT_SILENT; break;
    case 'z': settings->opts |= OPT_SUPPRESS_EXIT_INFO; break;
    case 'f': settings->opts |= OPT_FAIL_NO_USER_INTERACTION;
              settings->exitcode = 0; break;
    case 'm': if (strnlen(optarg, 256) >= 256) { fprintf(stderr, ...); return 0; }
              strncpy(settings->template, optarg, 255);
              settings->template[255] = 0; break;
    case 'e': if (sscanf(optarg, "%i", &val) != 1) { fprintf(stderr, ...); return 0; }
              if (val < 0 || val > 255) { fprintf(stderr, ...); return 0; }
              settings->exitcode = val;
              settings->opts &= ~OPT_FAIL_NO_USER_INTERACTION; break;
    case 'h': settings->opts |= OPT_HELP; break;
    case '?': return 0;
    }
  }
  \<close>
  \<open>parse_option\<close> is the \<^verbatim>\<open>switch\<close> for one result of \<^verbatim>\<open>getopt\<close>: \<open>Accepted\<close> when
  the case ends in \<^verbatim>\<open>break\<close>, and the loop goes on with the settings changed.
  \<open>parse_options\<close> is the loop.
\<close>

definition parse_option :: "string \<Rightarrow> getopt_ret \<Rightarrow> Settings \<Rightarrow> parse_result" where
  "parse_option prog r settings =
     (let c = getopt_char r; optarg = getopt_optarg r in
      if c = CHR ''s'' then
        Accepted (settings\<lparr>opts := opts settings OR OPT_SILENT\<rparr>)
      else if c = CHR ''z'' then
        Accepted (settings\<lparr>opts := opts settings OR OPT_SUPPRESS_EXIT_INFO\<rparr>)
      else if c = CHR ''f'' then
        Accepted (settings\<lparr>opts := opts settings OR OPT_FAIL_NO_USER_INTERACTION, exitcode := 0\<rparr>)
      else if c = CHR ''m'' then
        (if strnlen optarg 256 \<ge> 256 then
           Rejected ''Error: message template too big, max size is 255 chars.''
         else Accepted (settings\<lparr>template := take 255 optarg\<rparr>))
      else if c = CHR ''e'' then
        (case sscanf_i optarg of
           None \<Rightarrow> Rejected (''Error: -e requires an integer argument: '' @ optarg @ [CHR 0x0A])
         | Some val \<Rightarrow>
             if \<not> int_representable val then Undefined Conversion_overflow
             else if val < 0 \<or> val > 255 then
               Rejected (''Error: -e requires integer argument between 0 and 255: ''
                         @ optarg @ [CHR 0x0A])
             else
               Accepted (settings\<lparr>exitcode := word_of_int val,
                                   opts := opts settings AND NOT OPT_FAIL_NO_USER_INTERACTION\<rparr>))
      else if c = CHR ''h'' then
        Accepted (settings\<lparr>opts := opts settings OR OPT_HELP\<rparr>)
      else if c = CHR ''?'' then
        Rejected (getopt_diagnostic prog r)
      else Accepted settings)"

fun parse_options :: "string \<Rightarrow> getopt_ret list \<Rightarrow> Settings \<Rightarrow> parse_result" where
  "parse_options prog [] settings = Accepted settings"
| "parse_options prog (r # rs) settings =
     (case parse_option prog r settings of
        Accepted settings' \<Rightarrow> parse_options prog rs settings'
      | Rejected msg \<Rightarrow> Rejected msg
      | Undefined f \<Rightarrow> Undefined f)"

text \<open>After the options: \<^verbatim>\<open>if (optind < argc) ...\<close> reads the countdown from the first
  remaining argument.\<close>

definition parse_countdown :: "string list \<Rightarrow> Settings \<Rightarrow> parse_result" where
  "parse_countdown rest settings =
     (case rest of
        [] \<Rightarrow> Accepted settings
      | a # _ \<Rightarrow>
          (case sscanf_i a of
             None \<Rightarrow> Rejected (''Error: countdown must be a positive integer: '' @ a @ [CHR 0x0A])
           | Some val \<Rightarrow>
               if \<not> int_representable val then Undefined Conversion_overflow
               else if val < 0 then
                 Rejected (''Error: countdown must be a positive integer: '' @ a @ [CHR 0x0A])
               else Accepted (settings\<lparr>countdown := val\<rparr>)))"

text \<open>\<open>argv\<close> is the whole argument vector; its head, \<^verbatim>\<open>argv[0]\<close>, is the program's name,
  which \<^verbatim>\<open>getopt\<close> puts in front of its diagnostics.\<close>

definition program_name :: "string list \<Rightarrow> string" where
  "program_name argv = (case argv of [] \<Rightarrow> [] | p # _ \<Rightarrow> p)"

definition getopt_results :: "string list \<Rightarrow> getopt_ret list" where
  "getopt_results argv = fst (getopt_scan [] (tl argv) [])"

definition remaining_arguments :: "string list \<Rightarrow> string list" where
  "remaining_arguments argv = snd (getopt_scan [] (tl argv) [])"

definition parse_arguments :: "string list \<Rightarrow> parse_result" where
  "parse_arguments argv =
     (case parse_options (program_name argv) (getopt_results argv) initial_settings of
        Accepted settings \<Rightarrow> parse_countdown (remaining_arguments argv) settings
      | Rejected msg \<Rightarrow> Rejected msg
      | Undefined f \<Rightarrow> Undefined f)"

subsection \<open>The environment of a run\<close>

text \<open>
  What the program meets in its surroundings.

  \<open>wait_events k\<close> is what happens during the \<open>k\<close>-th call of
  \<^verbatim>\<open>wait_for_one_second_or_input\<close>, counted from 0: either \<^verbatim>\<open>select\<close> returns a value (0
  when the second passes without input, the number of ready descriptors when a key was
  pressed, -1 on an error), or a signal whose default action ends the process (SIGINT,
  SIGTERM, SIGHUP, ...) is delivered. The program installs no signal handler, so such a
  signal ends the process at once, and functions registered with \<^verbatim>\<open>atexit\<close> are not
  called. The process spends its time in these waits; signals at other moments are not
  modelled.

  \<open>stdin_isatty\<close> and \<open>tty_attrs\<close> say whether standard input is a terminal and what
  the attributes of that terminal are when the program starts.

  \<open>usage_text\<close> is what \<^verbatim>\<open>print_usage\<close> writes to standard error. It is wrapped to the
  width of the terminal by \<^verbatim>\<open>print_aligned\<close>, which is not modelled in detail. That
  function does not always return: when the width equals the length of the prefix of a
  line (8 columns for the option lines, 24 for the line starting with
  \<^verbatim>\<open>Use: waitexit [opts] N, \<close>), \<^verbatim>\<open>linemax\<close> is 0, the text never advances and the loop
  writes beyond \<^verbatim>\<open>buf\<close>. \<open>None\<close> stands for that case.
\<close>

datatype wait_event =
    Select_returns int
  | Killed_by_signal int

record termios =
  c_iflag :: "32 word"
  c_oflag :: "32 word"
  c_cflag :: "32 word"
  c_lflag :: "32 word"
  c_cc :: "8 word list"

record env =
  wait_events :: "nat \<Rightarrow> wait_event"
  stdin_isatty :: bool
  tty_attrs :: termios
  usage_text :: "string option"

subsection \<open>Terminal mode: \<^verbatim>\<open>init_termio\<close>, \<^verbatim>\<open>reset_termio\<close> and \<^verbatim>\<open>atexit\<close>\<close>

text \<open>The values of \<^verbatim>\<open>ECHO\<close> and \<^verbatim>\<open>ICANON\<close> in the Linux header \<^verbatim>\<open>termbits.h\<close>.\<close>

definition ECHO :: "32 word" where "ECHO = 0x8"
definition ICANON :: "32 word" where "ICANON = 0x2"

datatype exit_fn = Reset_termio

text \<open>
  \<open>attrs\<close> are the attributes of the terminal on standard input (meaningful when
  \<open>isatty\<close>), \<open>default_term\<close> is the static variable of that name, \<open>atexit_fns\<close> the
  functions registered with \<^verbatim>\<open>atexit\<close>, the latest first. \<open>resets\<close> is not a variable
  of the program: it counts the executions of \<^verbatim>\<open>reset_termio\<close>.
  \<^verbatim>\<open>tcsetattr\<close> on a descriptor that is not a terminal fails and changes nothing; the
  program ignores its return value.
\<close>

record tty_state =
  isatty :: bool
  attrs :: termios
  default_term :: termios
  atexit_fns :: "exit_fn list"
  resets :: nat

definition zero_termios :: termios where
  "zero_termios = \<lparr>c_iflag = 0, c_oflag = 0, c_cflag = 0, c_lflag = 0, c_cc = []\<rparr>"

definition process_start :: "env \<Rightarrow> tty_state" where
  "process_start e =
     \<lparr>isatty = stdin_isatty e, attrs = tty_attrs e, default_term = zero_termios,
      atexit_fns = [], resets = 0\<rparr>"

definition tcsetattr :: "termios \<Rightarrow> tty_state \<Rightarrow> tty_state" where
  "tcsetattr t tty = (if isatty tty then tty\<lparr>attrs := t\<rparr> else tty)"

definition reset_termio :: "tty_state \<Rightarrow> tty_state" where
  "reset_termio tty = (tcsetattr (default_term tty) tty)\<lparr>resets := Suc (resets tty)\<rparr>"

definition init_termio :: "tty_state \<Rightarrow> tty_state" where
  "init_termio tty =
     (if isatty tty then
        (let tty1 = tty\<lparr>default_term := attrs tty\<rparr>;
             tty2 = tty1\<lparr>atexit_fns := Reset_termio # atexit_fns tty1\<rparr>;
             term = attrs tty2;
             term' = term\<lparr>c_lflag := c_lflag term AND NOT (ECHO OR ICANON)\<rparr>
         in tcsetattr term' tty2)
      else tty)"

text \<open>Returning from \<^verbatim>\<open>main\<close> ends the process through \<^verbatim>\<open>exit\<close>, which calls the
  registered functions.\<close>

fun run_exit_fns :: "exit_fn list \<Rightarrow> tty_state \<Rightarrow> tty_state" where
  "run_exit_fns [] tty = tty"
| "run_exit_fns (Reset_termio # fs) tty = run_exit_fns fs (reset_termio tty)"

definition process_exit :: "tty_state \<Rightarrow> tty_state" where
  "process_exit tty = run_exit_fns (atexit_fns tty) tty"

subsection \<open>The countdown loop of \<^verbatim>\<open>main\<close>\<close>

text \<open>
  \<^verbatim>\<open>
  int seconds_left = seconds;
  while (seconds_left > 0) {
    if (! (settings.opts & OPT_SILENT)) {
      char msg[1024];
      prepare_message(msg, settings.template, seconds_left);
      fputs(msg, stdout);
    }
    if (wait_for_one_second_or_input()) {
      break;
    }
    seconds_left = seconds_left - 1;
    if (! (settings.opts & OPT_SILENT)) {
      fprintf(stdout, "\r\033[K");
    }
  }
  \<close>
  \<open>waits\<close> counts the calls of \<^verbatim>\<open>wait_for_one_second_or_input\<close> (it selects the next
  event of the environment), \<open>out\<close> is what has been written to standard output.
  \<open>history\<close> is not a variable of the program: it records the value of
  \<^verbatim>\<open>seconds_left\<close> at every evaluation of the loop condition, the first one first.
  \<open>exit_reason\<close> names the way the loop was left: \<open>Timeout\<close> by its condition,
  \<open>Interrupted\<close> by \<^verbatim>\<open>break\<close>.
\<close>

datatype exit_reason = Timeout | Interrupted

record loop_state =
  seconds_left :: int
  waits :: nat
  out :: string
  history :: "int list"

definition silent :: "Settings \<Rightarrow> bool" where
  "silent settings \<longleftrightarrow> opts settings AND OPT_SILENT \<noteq> 0"

definition clear_line :: string where
  "clear_line = [CHR 0x0D, CHR 0x1B] @ ''[K''"

definition msg_size :: nat where
  "msg_size = 1024"

text \<open>\<^verbatim>\<open>wait_for_one_second_or_input\<close> returns what \<^verbatim>\<open>select\<close> returned (after
  reading and discarding the input when that is not 0), unless the process is killed
  while it waits.\<close>

definition wait_for_one_second_or_input :: "(nat \<Rightarrow> wait_event) \<Rightarrow> nat \<Rightarrow> wait_event" where
  "wait_for_one_second_or_input events k = events k"

definition loop_entry :: "Settings \<Rightarrow> loop_state" where
  "loop_entry settings =
     \<lparr>seconds_left = countdown settings, waits = 0, out = [], history = [countdown settings]\<rparr>"

text \<open>One execution of the loop body ends in the next test of the loop condition, in
  \<^verbatim>\<open>break\<close>, or in the death of the process; it is \<open>Inl\<close> when the message overruns the
  buffer.\<close>

datatype body_end = Next_test | Break | Killed int

definition loop_body ::
  "Settings \<Rightarrow> (nat \<Rightarrow> wait_event) \<Rightarrow> loop_state \<Rightarrow> fault + body_end \<times> loop_state" where
  "loop_body settings events ls =
     (if \<not> silent settings
         \<and> \<not> length (prepare_message (template settings) (seconds_left ls)) < msg_size
      then Inl Buffer_overrun
      else
        (let ls1 = (if \<not> silent settings
                    then ls\<lparr>out := out ls @ prepare_message (template settings) (seconds_left ls)\<rparr>
                    else ls);
             ls2 = ls1\<lparr>waits := Suc (waits ls1)\<rparr>
         in case wait_for_one_second_or_input events (waits ls1) of
              Killed_by_signal n \<Rightarrow> Inr (Killed n, ls2)
            | Select_returns r \<Rightarrow>
                if r \<noteq> 0 then Inr (Break, ls2)
                else
                  (let ls3 = ls2\<lparr>seconds_left := seconds_left ls2 - 1,
                                 history := history ls2 @ [seconds_left ls2 - 1]\<rparr>;
                       ls4 = (if \<not> silent settings then ls3\<lparr>out := out ls3 @ clear_line\<rparr>
                              else ls3)
                   in Inr (Next_test, ls4))))"

text \<open>The loop ends when it is left (\<open>Done\<close>, in the words of the specification) or when
  the process is killed during a wait.\<close>

datatype loop_exit = Done exit_reason | Killed_in_wait int

function countdown_loop ::
  "Settings \<Rightarrow> (nat \<Rightarrow> wait_event) \<Rightarrow> loop_state \<Rightarrow> fault + loop_exit \<times> loop_state" where
  "countdown_loop settings events ls =
     (if seconds_left ls > 0 then
        (case loop_body settings events ls of
           Inl f \<Rightarrow> Inl f
         | Inr (Killed n, ls') \<Rightarrow> Inr (Killed_in_wait n, ls')
         | Inr (Break, ls') \<Rightarrow> Inr (Done Interrupted, ls')
         | Inr (Next_test, ls') \<Rightarrow> countdown_loop settings events ls')
      else Inr (Done Timeout, ls))"
  by pat_completeness auto
termination
proof (relation "measure (\<lambda>(settings, events, ls). nat (seconds_left ls))", goal_cases)
  case 1
  show ?case by simp
next
  case (2 settings events ls x2 e ls')
  then show ?case
    by (auto simp: loop_body_def Let_def split: if_splits wait_event.splits)
qed

declare countdown_loop.simps [simp del]

subsection \<open>The rest of \<^verbatim>\<open>main\<close>\<close>

text \<open>
  \<^verbatim>\<open>
  if (seconds_left == 0 && (settings.opts & OPT_FAIL_NO_USER_INTERACTION)) {
    exitcode = 1;
  }
  if (! (settings.opts & OPT_SILENT)) {
    if (settings.opts & OPT_SUPPRESS_EXIT_INFO) {
      fprintf(stdout, "\r\033[K\n");
    } else {
      fprintf(stdout, "\r\033[KExit %i after %i seconds.\n", exitcode, seconds-seconds_left);
    }
  }
  return exitcode;
  \<close>
\<close>

definition final_exitcode :: "Settings \<Rightarrow> int \<Rightarrow> int" where
  "final_exitcode settings seconds_left_end =
     (if seconds_left_end = 0 \<and> opts settings AND OPT_FAIL_NO_USER_INTERACTION \<noteq> 0 then 1
      else uint (exitcode settings))"

definition exit_summary :: "Settings \<Rightarrow> int \<Rightarrow> int \<Rightarrow> int \<Rightarrow> string" where
  "exit_summary settings code seconds seconds_left_end =
     (if \<not> silent settings then
        (if opts settings AND OPT_SUPPRESS_EXIT_INFO \<noteq> 0 then clear_line @ [CHR 0x0A]
         else clear_line @ ''Exit '' @ sprintf_d code @ '' after ''
              @ sprintf_d (seconds - seconds_left_end) @ '' seconds.'' @ [CHR 0x0A])
      else [])"

text \<open>
  What can be observed of a process that has ended: its exit status (for a process killed
  by a signal, 128 plus the number of the signal, as a shell reports it), the signal that
  killed it if one did, the bytes on standard output and standard error, the attributes
  of the terminal, how often \<^verbatim>\<open>reset_termio\<close> ran, and (not visible from outside) how the
  countdown loop was left: \<open>None\<close> when it was not, because it never started or because the
  process died in it.
\<close>

record process_end =
  status :: int
  killed_by :: "int option"
  stdout :: string
  stderr :: string
  terminal :: termios
  reset_runs :: nat
  loop_end :: "(exit_reason \<times> loop_state) option"

definition early_return :: "int \<Rightarrow> string \<Rightarrow> tty_state \<Rightarrow> process_end" where
  "early_return code msg tty =
     (let tty' = process_exit tty in
      \<lparr>status = code, killed_by = None, stdout = [], stderr = msg, terminal = attrs tty',
       reset_runs = resets tty', loop_end = None\<rparr>)"

text \<open>
  \<open>run\<close> is \<^verbatim>\<open>main\<close> from the call of \<^verbatim>\<open>init_termio\<close> to the end. A process that
  returns from \<^verbatim>\<open>main\<close> ends through \<^verbatim>\<open>exit\<close>; a process killed by a signal ends where
  it is, with the terminal as \<^verbatim>\<open>init_termio\<close> has left it.
\<close>

definition run :: "Settings \<Rightarrow> env \<Rightarrow> fault + process_end" where
  "run settings e =
     (let tty = init_termio (process_start e);
          seconds = countdown settings
      in case countdown_loop settings (wait_events e) (loop_entry settings) of
           Inl f \<Rightarrow> Inl f
         | Inr (Killed_in_wait n, ls) \<Rightarrow>
             Inr \<lparr>status = 128 + n,
                  killed_by = Some n,
                  stdout = out ls,
                  stderr = [],
                  terminal = attrs tty,
                  reset_runs = resets tty,
                  loop_end = None\<rparr>
         | Inr (Done reason, ls) \<Rightarrow>
             (let code = final_exitcode settings (seconds_left ls);
                  tty' = process_exit tty
              in Inr \<lparr>status = code,
                      killed_by = None,
                      stdout = out ls @ exit_summary settings code seconds (seconds_left ls),
                      stderr = [],
                      terminal = attrs tty',
                      reset_runs = resets tty',
                      loop_end = Some (reason, ls)\<rparr>))"

definition missing_countdown_message :: string where
  "missing_countdown_message = ''Error: number of seconds to wait must be specified.'' @ [CHR 0x0A]"

text \<open>
  \<^verbatim>\<open>
  if (!parse_arguments(argc, argv, &settings)) { return 1; }
  if (settings.opts & OPT_HELP) { print_usage(argv[0]); return 0; }
  if (settings.countdown < 0) { fprintf(stderr, "Error: ...\n"); return 1; }
  init_termio();
  \<close>
\<close>

definition main :: "string list \<Rightarrow> env \<Rightarrow> fault + process_end" where
  "main argv e =
     (case parse_arguments argv of
        Undefined f \<Rightarrow> Inl f
      | Rejected msg \<Rightarrow> Inr (early_return 1 msg (process_start e))
      | Accepted settings \<Rightarrow>
          if opts settings AND OPT_HELP \<noteq> 0 then
            (case usage_text e of
               None \<Rightarrow> Inl Usage_overrun
             | Some text \<Rightarrow> Inr (early_return 0 text (process_start e)))
          else if countdown settings < 0 then
            Inr (early_return 1 missing_countdown_message (process_start e))
          else run settings e)"

subsection \<open>Notions used to state the properties\<close>

text \<open>The number a string of decimal digits denotes, to say what \<open>sprintf_d\<close> writes.\<close>

definition decimal_value :: "string \<Rightarrow> nat" where
  "decimal_value ds = foldl (\<lambda>a c. 10 * a + (of_char c - 48)) 0 ds"

text \<open>The pieces \<open>ps\<close> with \<open>sep\<close> between each two of them.\<close>

fun join :: "string \<Rightarrow> string list \<Rightarrow> string" where
  "join sep [] = []"
| "join sep [p] = p"
| "join sep (p # q # ps) = p @ sep @ join sep (q # ps)"

text \<open>The line rendered for \<open>s\<close> seconds fits \<^verbatim>\<open>char msg[1024]\<close>, with its terminating NUL.\<close>

definition line_fits :: "Settings \<Rightarrow> int \<Rightarrow> bool" where
  "line_fits settings s \<longleftrightarrow> length (prepare_message (template settings) s) < msg_size"

text \<open>The last of the options \<^verbatim>\<open>-e\<close> and \<^verbatim>\<open>-f\<close> on the command line, if there is one.\<close>

fun last_exit_option :: "getopt_ret list \<Rightarrow> getopt_ret option" where
  "last_exit_option [] = None"
| "last_exit_option (r # rs) =
     (case last_exit_option rs of
        Some x \<Rightarrow> Some x
      | None \<Rightarrow> if getopt_char r = CHR ''e'' \<or> getopt_char r = CHR ''f'' then Some r else None)"

text \<open>
  The invalid configurations: an option \<^verbatim>\<open>getopt\<close> does not accept, an argument of
  \<^verbatim>\<open>-e\<close> in which \<^verbatim>\<open>%i\<close> finds no number or a number outside 0..255, a template of
  more than 255 bytes, and a countdown in which \<^verbatim>\<open>%i\<close> finds no number or a negative one.
\<close>

definition invalid_option :: "getopt_ret \<Rightarrow> bool" where
  "invalid_option r =
     (case r of
        Invalid_option c \<Rightarrow> True
      | Missing_argument c \<Rightarrow> True
      | Opt c a \<Rightarrow>
          (c = CHR ''e'' \<and> (case sscanf_i a of None \<Rightarrow> True | Some v \<Rightarrow> v < 0 \<or> 255 < v))
          \<or> (c = CHR ''m'' \<and> 255 < length a))"

definition invalid_countdown :: "string list \<Rightarrow> bool" where
  "invalid_countdown rest =
     (case rest of
        [] \<Rightarrow> False
      | a # _ \<Rightarrow> (case sscanf_i a of None \<Rightarrow> True | Some v \<Rightarrow> v < 0))"

text \<open>Environments and settings for the examples.\<close>

definition no_input :: "nat \<Rightarrow> wait_event" where
  "no_input k = Select_returns 0"

definition key_at :: "nat \<Rightarrow> nat \<Rightarrow> wait_event" where
  "key_at n k = (if k = n then Select_returns 1 else Select_returns 0)"

definition SIGINT :: int where
  "SIGINT = 2"

definition signal_at :: "nat \<Rightarrow> nat \<Rightarrow> wait_event" where
  "signal_at n k = (if k = n then Killed_by_signal SIGINT else Select_returns 0)"

definition cooked_terminal :: termios where
  "cooked_terminal =
     \<lparr>c_iflag = 0x500, c_oflag = 0x5, c_cflag = 0xBF, c_lflag = 0x8A3B, c_cc = []\<rparr>"

definition quiet_terminal :: env where
  "quiet_terminal =
     \<lparr>wait_events = no_input, stdin_isatty = True, tty_attrs = cooked_terminal,
      usage_text = Some ''Use: waitexit [opts] N''\<rparr>"

definition key_in_first_tick :: env where
  "key_in_first_tick = quiet_terminal\<lparr>wait_events := key_at 0\<rparr>"

definition key_in_second_tick :: env where
  "key_in_second_tick = quiet_terminal\<lparr>wait_events := key_at 1\<rparr>"

definition interrupt_in_second_tick :: env where
  "interrupt_in_second_tick = quiet_terminal\<lparr>wait_events := signal_at 1\<rparr>"

text \<open>What the statements about concrete runs read off the end of a process.\<close>

definition loop_reason :: "process_end \<Rightarrow> exit_reason option" where
  "loop_reason pe = map_option fst (loop_end pe)"

definition loop_waits :: "process_end \<Rightarrow> nat option" where
  "loop_waits pe = map_option (waits \<circ> snd) (loop_end pe)"

definition echo_enabled :: "termios \<Rightarrow> bool" where
  "echo_enabled t \<longleftrightarrow> c_lflag t AND ECHO \<noteq> 0"

definition canonical_mode :: "termios \<Rightarrow> bool" where
  "canonical_mode t \<longleftrightarrow> c_lflag t AND ICANON \<noteq> 0"

definition three_seconds :: Settings where
  "three_seconds = initial_settings\<lparr>countdown := 3\<rparr>"

definition silent_three_seconds :: Settings where
  "silent_three_seconds = three_seconds\<lparr>opts := OPT_SILENT\<rparr>"

definition redirected_input :: env where
  "redirected_input = quiet_terminal\<lparr>stdin_isatty := False\<rparr>"

text \<open>The number of sequences \<open>%S\<close> the renderer expands in a template.\<close>

fun placeholders :: "string \<Rightarrow> nat" where
  "placeholders [] = 0"
| "placeholders (c # cs) =
     (if c = CHR ''%'' \<and> cs \<noteq> [] \<and> hd cs = CHR ''S'' then Suc (placeholders (tl cs))
      else placeholders cs)"

text \<open>A template of 254 bytes: 127 times \<open>%S\<close>.\<close>

definition many_placeholders :: string where
  "many_placeholders = concat (replicate 127 ''%S'')"

section \<open>Properties\<close>

subsection \<open>The message renderer\<close>

lemma prepare_message_loop_render:
  "prepare_message_loop t i s dst = dst @ render (drop i t) s"
proof (induction t i s dst rule: prepare_message_loop.induct)
  case (1 t i s dst)
  show ?case
  proof (cases "i < length t")
    case False
    then show ?thesis by (subst prepare_message_loop.simps) simp
  next
    case True
    then have d: "drop i t = t ! i # drop (Suc i) t"
      by (simp add: Cons_nth_drop_Suc)
    show ?thesis
    proof (cases "t ! i = CHR 0x0A \<or> t ! i = CHR 0x0D")
      case lb: True
      with True 1(1) [OF True refl] show ?thesis
        by (subst prepare_message_loop.simps) (simp add: d)
    next
      case nlb: False
      show ?thesis
      proof (cases "t ! i = CHR ''%'' \<and> i < length t - 1 \<and> t ! (i + 1) = CHR ''S''")
        case ph: True
        then have lt: "Suc i < length t" by linarith
        then have d2: "drop (Suc i) t = t ! Suc i # drop (Suc (Suc i)) t"
          by (simp add: Cons_nth_drop_Suc)
        from True nlb ph 1(2) [OF True refl] show ?thesis
          by (subst prepare_message_loop.simps) (simp add: d d2)
      next
        case nph: False
        have "\<not> (t ! i = CHR ''%'' \<and> drop (Suc i) t \<noteq> [] \<and> hd (drop (Suc i) t) = CHR ''S'')"
        proof (cases "Suc i < length t")
          case True
          then show ?thesis using nph by (auto simp: hd_drop_conv_nth)
        next
          case False
          then show ?thesis by simp
        qed
        with True nlb nph 1(3) [OF True refl] show ?thesis
          by (subst prepare_message_loop.simps) (auto simp add: d)
      qed
    qed
  qed
qed

lemma prepare_message_eq_render: "prepare_message t s = render t s"
  by (simp add: prepare_message_def prepare_message_loop_render)

lemma render_append:
  "\<not> (a \<noteq> [] \<and> last a = CHR ''%'' \<and> b \<noteq> [] \<and> hd b = CHR ''S'')
   \<Longrightarrow> render (a @ b) s = render a s @ render b s"
proof (induction a s rule: render.induct)
  case (1 s)
  show ?case by simp
next
  case (2 c cs s)
  show ?case
  proof (cases "c = CHR 0x0A \<or> c = CHR 0x0D")
    case True
    with 2 show ?thesis by (auto split: if_splits)
  next
    case nlb: False
    show ?thesis
    proof (cases "c = CHR ''%'' \<and> cs \<noteq> [] \<and> hd cs = CHR ''S''")
      case True
      then obtain cs' where cs: "cs = CHR ''S'' # cs'" by (cases cs) auto
      with 2(2) [OF nlb True] 2(4) nlb True show ?thesis
        by (auto split: if_splits)
    next
      case False
      with 2(3) [OF nlb False] 2(4) nlb show ?thesis
        by (cases cs) (auto split: if_splits)
    qed
  qed
qed

lemma render_placeholder:
  "render (a @ ''%S'' @ b) s = render a s @ sprintf_d s @ render b s"
  by (simp add: render_append)

lemma render_line_break:
  "is_line_break c \<Longrightarrow> render (a @ [c] @ b) s = render a s @ render b s"
  by (auto simp add: render_append is_line_break_def)

lemma render_percent:
  "b = [] \<or> hd b \<noteq> CHR ''S'' \<Longrightarrow> render (a @ ''%'' @ b) s = render a s @ ''%'' @ render b s"
  by (auto simp add: render_append)

lemma render_ordinary:
  "\<not> is_line_break c \<Longrightarrow> c \<noteq> CHR ''%'' \<Longrightarrow> \<not> (c = CHR ''S'' \<and> a \<noteq> [] \<and> last a = CHR ''%'')
   \<Longrightarrow> render (a @ [c] @ b) s = render a s @ [c] @ render b s"
  by (auto simp add: render_append is_line_break_def)

lemma render_no_placeholder:
  "\<not> has_placeholder t \<Longrightarrow> render t s = strip_line_breaks t"
  by (induction t rule: has_placeholder.induct)
     (auto simp: strip_line_breaks_def is_line_break_def)

lemma decimal_value_digit: "d < 10 \<Longrightarrow> (of_char (digit_char d) :: nat) = 48 + d"
  by (simp add: digit_char_def)

lemma decimal_value_decimal: "decimal_value (decimal n) = n"
proof (induction n rule: decimal.induct)
  case (1 n)
  show ?case
  proof (cases "n < 10")
    case True
    then show ?thesis
      by (subst decimal.simps) (simp add: decimal_value_def decimal_value_digit)
  next
    case False
    with 1 have "decimal_value (decimal (n div 10)) = n div 10" by simp
    with False show ?thesis
      by (subst decimal.simps) (simp add: decimal_value_def decimal_value_digit)
  qed
qed

lemma decimal_value_sprintf_d: "decimal_value (sprintf_d (int n)) = n"
  by (simp add: sprintf_d_def decimal_value_decimal)

lemma render_join:
  "render (join ''%S'' ps) s = join (sprintf_d s) (map (\<lambda>p. render p s) ps)"
  by (induction "''%S''" ps rule: join.induct) (simp_all add: render_append)

lemma example_only_placeholder: "prepare_message ''%S'' 42 = ''42''"
  by code_simp

lemma example_placeholder_inside: "prepare_message ''x%Sy'' 7 = ''x7y''"
  by code_simp

lemma example_other_sequences: "prepare_message ''100%% %d %s %n'' 3 = ''100%% %d %s %n''"
  by code_simp

lemma example_two_placeholders: "prepare_message ''%S of %S, 100%'' 5 = ''5 of 5, 100%''"
  by code_simp

text \<open>
  Claim C4. For every template and every number of seconds, \<open>prepare_message\<close> computes
  what the specification's renderer does: each sequence \<open>%S\<close> becomes the decimal
  representation of the seconds, each carriage return and line feed is dropped, and every
  other character is copied in its place; the sequences \<open>%%\<close>, \<open>%d\<close>, \<open>%s\<close>, \<open>%n\<close> are
  copied as they are. \<open>render("%S", 42)\<close> is \<open>"42"\<close> and \<open>render("x%Sy", 7)\<close> is \<open>"x7y"\<close>.
  (The bound of 255 bytes on the template is not needed for this.)
\<close>

theorem prepare_message_renders:
  "prepare_message t s = render t s
   \<and> prepare_message (a @ ''%S'' @ b) s = prepare_message a s @ sprintf_d s @ prepare_message b s
   \<and> (is_line_break c \<longrightarrow> prepare_message (a @ [c] @ b) s = prepare_message a s @ prepare_message b s)
   \<and> (\<not> is_line_break c \<and> c \<noteq> CHR ''%'' \<and> \<not> (c = CHR ''S'' \<and> a \<noteq> [] \<and> last a = CHR ''%'')
        \<longrightarrow> prepare_message (a @ [c] @ b) s = prepare_message a s @ [c] @ prepare_message b s)
   \<and> decimal_value (sprintf_d (int n)) = n
   \<and> prepare_message ''%S'' 42 = ''42''
   \<and> prepare_message ''x%Sy'' 7 = ''x7y''
   \<and> prepare_message ''100%% %d %s %n'' 3 = ''100%% %d %s %n''"
  using render_placeholder [of a b s] render_line_break [of c a b s] render_ordinary [of c a b s]
    example_only_placeholder example_placeholder_inside example_other_sequences
  by (simp add: prepare_message_eq_render decimal_value_sprintf_d)

theorem prepare_message_renders_witness:
  "is_line_break (CHR 0x0D)
   \<and> \<not> is_line_break CHR ''x'' \<and> CHR ''x'' \<noteq> CHR ''%''
   \<and> prepare_message ''ab%S'' 7 = render ''ab%S'' 7
   \<and> prepare_message (''a'' @ ''%S'' @ ''b'') 7 = prepare_message ''a'' 7 @ sprintf_d 7 @ prepare_message ''b'' 7
   \<and> prepare_message (''a'' @ [CHR 0x0D] @ ''b'') 7 = prepare_message ''a'' 7 @ prepare_message ''b'' 7
   \<and> prepare_message (''a'' @ [CHR ''x''] @ ''b'') 7 = prepare_message ''a'' 7 @ [CHR ''x''] @ prepare_message ''b'' 7
   \<and> decimal_value (sprintf_d (int 42)) = 42"
  using prepare_message_renders [of "''ab%S''" 7 "''a''" "''b''" "CHR 0x0D" 42]
        prepare_message_renders [of "''ab%S''" 7 "''a''" "''b''" "CHR ''x''" 42]
  by (simp add: is_line_break_def)

text \<open>
  Claim C5. For a template in which \<open>%S\<close> does not occur, the rendered line does not depend
  on the number of seconds: it is the template without its carriage returns and line feeds.
\<close>

theorem no_placeholder_ignores_seconds:
  "\<not> has_placeholder t \<Longrightarrow>
     prepare_message t s1 = prepare_message t s2 \<and> prepare_message t s1 = strip_line_breaks t"
  by (simp add: prepare_message_eq_render render_no_placeholder)

theorem no_placeholder_ignores_seconds_witness:
  "\<not> has_placeholder ''wait % S''
   \<and> (prepare_message ''wait % S'' 3 = prepare_message ''wait % S'' 9
      \<and> prepare_message ''wait % S'' 3 = strip_line_breaks ''wait % S'')"
proof -
  have h: "\<not> has_placeholder ''wait % S''" by simp
  from h no_placeholder_ignores_seconds [OF h, of 3 9] show ?thesis by (rule conjI)
qed

text \<open>
  Claim C10. Every occurrence of \<open>%S\<close> is expanded, each to the same number: a template
  made of pieces with \<open>%S\<close> between them renders to the rendered pieces with the number
  between them. A percent sign that is not followed by \<open>S\<close>, the last character of the
  template included, is copied.
\<close>

theorem every_placeholder_expanded:
  "prepare_message (join ''%S'' ps) s = join (sprintf_d s) (map (\<lambda>p. prepare_message p s) ps)
   \<and> ((b = [] \<or> hd b \<noteq> CHR ''S'')
        \<longrightarrow> prepare_message (a @ ''%'' @ b) s = prepare_message a s @ ''%'' @ prepare_message b s)
   \<and> prepare_message (a @ ''%'') s = prepare_message a s @ ''%''
   \<and> prepare_message ''%S of %S, 100%'' 5 = ''5 of 5, 100%''"
  using render_percent [of b a s] render_percent [of "[]" a s] render_join [of ps s]
    example_two_placeholders
  by (simp add: prepare_message_eq_render)

theorem every_placeholder_expanded_witness:
  "(''x'' = [] \<or> hd ''x'' \<noteq> CHR ''S'')
   \<and> prepare_message (join ''%S'' [''a'', ''b'', ''c'']) 12
       = join (sprintf_d 12) (map (\<lambda>p. prepare_message p 12) [''a'', ''b'', ''c''])
   \<and> prepare_message (''50'' @ ''%'' @ ''x'') 12
       = prepare_message ''50'' 12 @ ''%'' @ prepare_message ''x'' 12"
proof -
  have h: "''x'' = [] \<or> hd ''x'' \<noteq> CHR ''S''" by simp
  from every_placeholder_expanded [of "[''a'', ''b'', ''c'']" 12 "''x''" "''50''"] h
  show ?thesis by blast
qed

subsection \<open>The countdown loop\<close>

lemma loop_body_timeout:
  assumes "ev (waits ls) = Select_returns 0" and "silent st \<or> line_fits st (seconds_left ls)"
  shows "\<exists>ls'. loop_body st ev ls = Inr (Next_test, ls') \<and> seconds_left ls' = seconds_left ls - 1
           \<and> waits ls' = Suc (waits ls) \<and> history ls' = history ls @ [seconds_left ls - 1]
           \<and> (silent st \<longrightarrow> out ls' = out ls)"
  using assms
  by (auto simp: loop_body_def Let_def line_fits_def wait_for_one_second_or_input_def)

lemma loop_body_input:
  assumes "ev (waits ls) = Select_returns r" and "r \<noteq> 0"
    and "silent st \<or> line_fits st (seconds_left ls)"
  shows "\<exists>ls'. loop_body st ev ls = Inr (Break, ls') \<and> seconds_left ls' = seconds_left ls
           \<and> waits ls' = Suc (waits ls) \<and> history ls' = history ls
           \<and> (silent st \<longrightarrow> out ls' = out ls)"
  using assms
  by (auto simp: loop_body_def Let_def line_fits_def wait_for_one_second_or_input_def)

lemma loop_body_killed:
  assumes "ev (waits ls) = Killed_by_signal n"
    and "silent st \<or> line_fits st (seconds_left ls)"
  shows "\<exists>ls'. loop_body st ev ls = Inr (Killed n, ls') \<and> seconds_left ls' = seconds_left ls
           \<and> waits ls' = Suc (waits ls) \<and> history ls' = history ls
           \<and> (silent st \<longrightarrow> out ls' = out ls)"
  using assms
  by (auto simp: loop_body_def Let_def line_fits_def wait_for_one_second_or_input_def)

lemma loop_body_step:
  assumes "loop_body st ev ls = Inr (b, ls')"
  shows "seconds_left ls' = (if b = Next_test then seconds_left ls - 1 else seconds_left ls)"
    and "waits ls' = Suc (waits ls)"
  using assms
  by (auto simp: loop_body_def Let_def wait_for_one_second_or_input_def
           split: if_splits wait_event.splits)

lemma countdown_loop_done:
  "\<not> 0 < seconds_left ls \<Longrightarrow> countdown_loop st ev ls = Inr (Done Timeout, ls)"
  by (subst countdown_loop.simps) simp

lemma countdown_loop_no_input:
  assumes "seconds_left ls = int n"
    and "\<forall>k\<ge>waits ls. ev k = Select_returns 0"
    and "silent st \<or> (\<forall>s. 0 < s \<and> s \<le> seconds_left ls \<longrightarrow> line_fits st s)"
  shows "\<exists>ls'. countdown_loop st ev ls = Inr (Done Timeout, ls') \<and> seconds_left ls' = 0
           \<and> waits ls' = waits ls + n
           \<and> history ls' = history ls @ rev (map int [0..<n])
           \<and> (silent st \<longrightarrow> out ls' = out ls)"
  using assms
proof (induction n arbitrary: ls)
  case 0
  then show ?case by (simp add: countdown_loop_done)
next
  case (Suc n)
  from Suc.prems have pos: "0 < seconds_left ls" by simp
  from Suc.prems pos have "ev (waits ls) = Select_returns 0"
    and "silent st \<or> line_fits st (seconds_left ls)"
    by auto
  from loop_body_timeout [of ev ls st, OF this] obtain ls1 where
    b: "loop_body st ev ls = Inr (Next_test, ls1)" and
    s1: "seconds_left ls1 = seconds_left ls - 1" and
    w1: "waits ls1 = Suc (waits ls)" and
    h1: "history ls1 = history ls @ [seconds_left ls - 1]" and
    o1: "silent st \<longrightarrow> out ls1 = out ls"
    by blast
  have "seconds_left ls1 = int n" using s1 Suc.prems(1) by simp
  moreover have "\<forall>k\<ge>waits ls1. ev k = Select_returns 0" using w1 Suc.prems(2) by simp
  moreover have "silent st \<or> (\<forall>s. 0 < s \<and> s \<le> seconds_left ls1 \<longrightarrow> line_fits st s)"
    using s1 Suc.prems(3) by auto
  ultimately obtain ls' where
    r: "countdown_loop st ev ls1 = Inr (Done Timeout, ls')" and
    s': "seconds_left ls' = 0" and
    w': "waits ls' = waits ls1 + n" and
    h': "history ls' = history ls1 @ rev (map int [0..<n])" and
    o': "silent st \<longrightarrow> out ls' = out ls1"
    using Suc.IH [of ls1] by blast
  have "countdown_loop st ev ls = Inr (Done Timeout, ls')"
    using pos b r by (subst countdown_loop.simps) simp
  moreover have "history ls' = history ls @ rev (map int [0..<Suc n])"
    using h' h1 Suc.prems(1) by simp
  ultimately show ?case using s' w' w1 o' o1 by auto
qed

lemma countdown_loop_input:
  assumes "\<forall>j<k. ev (waits ls + j) = Select_returns 0"
    and "ev (waits ls + k) = Select_returns r" and "r \<noteq> 0"
    and "int k < seconds_left ls"
    and "silent st \<or> (\<forall>s. seconds_left ls - int k \<le> s \<and> s \<le> seconds_left ls \<longrightarrow> line_fits st s)"
  shows "\<exists>ls'. countdown_loop st ev ls = Inr (Done Interrupted, ls')
           \<and> seconds_left ls' = seconds_left ls - int k
           \<and> waits ls' = waits ls + k + 1
           \<and> history ls' = history ls @ map (\<lambda>j. seconds_left ls - 1 - int j) [0..<k]"
  using assms
proof (induction k arbitrary: ls)
  case 0
  then have pos: "0 < seconds_left ls" by simp
  from 0 have "ev (waits ls) = Select_returns r" and "r \<noteq> 0"
    and "silent st \<or> line_fits st (seconds_left ls)" by auto
  from loop_body_input [of ev ls r st, OF this] obtain ls1 where
    "loop_body st ev ls = Inr (Break, ls1)" "seconds_left ls1 = seconds_left ls"
    "waits ls1 = Suc (waits ls)" "history ls1 = history ls" by blast
  with pos show ?case by (subst countdown_loop.simps) simp
next
  case (Suc k)
  then have pos: "0 < seconds_left ls" by simp
  from Suc.prems have "ev (waits ls) = Select_returns 0" by (metis add.right_neutral zero_less_Suc)
  moreover from Suc.prems(4,5) have "silent st \<or> line_fits st (seconds_left ls)" by auto
  ultimately obtain ls1 where
    b: "loop_body st ev ls = Inr (Next_test, ls1)" and
    s1: "seconds_left ls1 = seconds_left ls - 1" and
    w1: "waits ls1 = Suc (waits ls)" and
    h1: "history ls1 = history ls @ [seconds_left ls - 1]"
    using loop_body_timeout [of ev ls st] by blast
  have a1: "\<forall>j<k. ev (waits ls1 + j) = Select_returns 0"
  proof (intro allI impI)
    fix j assume "j < k"
    then have "ev (waits ls + Suc j) = Select_returns 0"
      using Suc.prems(1) [rule_format, of "Suc j"] by simp
    then show "ev (waits ls1 + j) = Select_returns 0" using w1 by simp
  qed
  have a2: "ev (waits ls1 + k) = Select_returns r" using Suc.prems(2) w1 by simp
  have a3: "int k < seconds_left ls1" using Suc.prems(4) s1 by simp
  have a4: "silent st \<or> (\<forall>s. seconds_left ls1 - int k \<le> s \<and> s \<le> seconds_left ls1 \<longrightarrow> line_fits st s)"
    using Suc.prems(5) s1 by auto
  from Suc.IH [OF a1 a2 Suc.prems(3) a3 a4] obtain ls' where
    r: "countdown_loop st ev ls1 = Inr (Done Interrupted, ls')" and
    s': "seconds_left ls' = seconds_left ls1 - int k" and
    w': "waits ls' = waits ls1 + k + 1" and
    h': "history ls' = history ls1 @ map (\<lambda>j. seconds_left ls1 - 1 - int j) [0..<k]"
    by blast
  have "countdown_loop st ev ls = Inr (Done Interrupted, ls')"
    using pos b r by (subst countdown_loop.simps) simp
  then show ?case using s' w' h' s1 w1 h1
    by (simp add: map_upt_Suc algebra_simps del: upt_Suc)
qed

text \<open>
  Every run of the loop in which each displayed line fits the buffer: it ends, by its
  condition exactly when \<^verbatim>\<open>seconds_left\<close> is 0, and the values of \<^verbatim>\<open>seconds_left\<close> at the
  tests of the loop condition go down by one from each to the next.
\<close>

lemma countdown_loop_general:
  assumes "seconds_left ls = int n"
    and "silent st \<or> (\<forall>s. 0 < s \<and> s \<le> seconds_left ls \<longrightarrow> line_fits st s)"
  shows "\<exists>x ls'. countdown_loop st ev ls = Inr (x, ls')
           \<and> 0 \<le> seconds_left ls' \<and> seconds_left ls' \<le> seconds_left ls
           \<and> (x = Done Timeout \<longleftrightarrow> seconds_left ls' = 0)
           \<and> history ls' = history ls @
                map (\<lambda>j. seconds_left ls - 1 - int j) [0..<nat (seconds_left ls - seconds_left ls')]
           \<and> (silent st \<longrightarrow> out ls' = out ls)"
  using assms
proof (induction n arbitrary: ls)
  case 0
  then show ?case by (simp add: countdown_loop_done)
next
  case (Suc n)
  then have pos: "0 < seconds_left ls" by simp
  from Suc.prems pos have fit: "silent st \<or> line_fits st (seconds_left ls)" by auto
  show ?case
  proof (cases "ev (waits ls)")
    case (Killed_by_signal sig)
    from loop_body_killed [of ev ls sig st, OF Killed_by_signal fit] obtain ls1 where
      "loop_body st ev ls = Inr (Killed sig, ls1)" "seconds_left ls1 = seconds_left ls"
      "history ls1 = history ls" "silent st \<longrightarrow> out ls1 = out ls" by blast
    with pos show ?thesis by (subst countdown_loop.simps) simp
  next
    case (Select_returns r)
    show ?thesis
    proof (cases "r = 0")
      case False
      from loop_body_input [of ev ls r st, OF Select_returns False fit] obtain ls1 where
        "loop_body st ev ls = Inr (Break, ls1)" "seconds_left ls1 = seconds_left ls"
        "history ls1 = history ls" "silent st \<longrightarrow> out ls1 = out ls" by blast
      with pos show ?thesis by (subst countdown_loop.simps) simp
    next
      case True
      with Select_returns have z: "ev (waits ls) = Select_returns 0" by simp
      from loop_body_timeout [of ev ls st, OF z fit] obtain ls1 where
        b: "loop_body st ev ls = Inr (Next_test, ls1)" and
        s1: "seconds_left ls1 = seconds_left ls - 1" and
        h1: "history ls1 = history ls @ [seconds_left ls - 1]" and
        o1: "silent st \<longrightarrow> out ls1 = out ls"
        by blast
      have n1: "seconds_left ls1 = int n" using s1 Suc.prems(1) by simp
      have f1: "silent st \<or> (\<forall>s. 0 < s \<and> s \<le> seconds_left ls1 \<longrightarrow> line_fits st s)"
        using s1 Suc.prems(2) by auto
      from Suc.IH [OF n1 f1] obtain x ls' where
        r: "countdown_loop st ev ls1 = Inr (x, ls')" and
        lo: "0 \<le> seconds_left ls'" and hi: "seconds_left ls' \<le> seconds_left ls1" and
        re: "x = Done Timeout \<longleftrightarrow> seconds_left ls' = 0" and
        h': "history ls' = history ls1 @
               map (\<lambda>j. seconds_left ls1 - 1 - int j) [0..<nat (seconds_left ls1 - seconds_left ls')]" and
        o': "silent st \<longrightarrow> out ls' = out ls1"
        by blast
      have c: "countdown_loop st ev ls = Inr (x, ls')"
        using pos b r by (subst countdown_loop.simps) simp
      have d: "nat (seconds_left ls - seconds_left ls') = Suc (nat (seconds_left ls1 - seconds_left ls'))"
        using hi s1 by simp
      have h: "history ls' = history ls @
                 map (\<lambda>j. seconds_left ls - 1 - int j) [0..<nat (seconds_left ls - seconds_left ls')]"
      proof -
        have "map (\<lambda>j. seconds_left ls - 1 - int j) [0..<Suc (nat (seconds_left ls1 - seconds_left ls'))]
              = (seconds_left ls - 1) #
                map (\<lambda>j. seconds_left ls1 - 1 - int j) [0..<nat (seconds_left ls1 - seconds_left ls')]"
          by (simp add: map_upt_Suc s1 algebra_simps del: upt_Suc)
        then show ?thesis unfolding d using h' h1 by simp
      qed
      from c lo hi s1 re h o1 o' show ?thesis by auto
    qed
  qed
qed

lemma run_result:
  "countdown_loop st (wait_events e) (loop_entry st) = Inr (Done reason, ls) \<Longrightarrow>
   run st e =
     Inr \<lparr>status = final_exitcode st (seconds_left ls),
          killed_by = None,
          stdout = out ls @ exit_summary st (final_exitcode st (seconds_left ls)) (countdown st)
                              (seconds_left ls),
          stderr = [],
          terminal = attrs (process_exit (init_termio (process_start e))),
          reset_runs = resets (process_exit (init_termio (process_start e))),
          loop_end = Some (reason, ls)\<rparr>"
  by (simp add: run_def Let_def)

lemma run_killed:
  "countdown_loop st (wait_events e) (loop_entry st) = Inr (Killed_in_wait n, ls) \<Longrightarrow>
   run st e =
     Inr \<lparr>status = 128 + n,
          killed_by = Some n,
          stdout = out ls,
          stderr = [],
          terminal = attrs (init_termio (process_start e)),
          reset_runs = resets (init_termio (process_start e)),
          loop_end = None\<rparr>"
  by (simp add: run_def Let_def)

lemma fits_range:
  "(silent st \<or> (\<forall>s\<in>set [1..n]. line_fits st s))
   \<Longrightarrow> silent st \<or> (\<forall>s. 0 < s \<and> s \<le> n \<longrightarrow> line_fits st s)"
  by auto

lemma exit_summary_text:
  "\<not> silent st \<Longrightarrow> opts st AND OPT_SUPPRESS_EXIT_INFO = 0 \<Longrightarrow>
   exit_summary st code seconds sl =
     clear_line @ ''Exit '' @ sprintf_d code @ '' after '' @ sprintf_d (seconds - sl)
     @ '' seconds.'' @ [CHR 0x0A]"
  by (simp add: exit_summary_def)

text \<open>
  When every displayed line fits the buffer \<^verbatim>\<open>msg\<close> (or nothing is displayed) and
  \<^verbatim>\<open>select\<close> never reports input, the loop makes exactly \<open>N\<close> waits, \<^verbatim>\<open>seconds_left\<close>
  takes the values \<open>N, N - 1, \<dots>, 0\<close> at the successive tests of the loop condition, and
  the loop is left by its condition with \<^verbatim>\<open>seconds_left = 0\<close>; the summary reports \<open>N\<close>
  elapsed seconds. For \<open>N = 0\<close> the body is never executed.
\<close>

lemma countdown_without_input:
  assumes "0 \<le> countdown st"
    and "\<forall>k. wait_events e k = Select_returns 0"
    and "silent st \<or> (\<forall>s\<in>set [1..countdown st]. line_fits st s)"
  shows "\<exists>pe ls. run st e = Inr pe \<and> loop_end pe = Some (Timeout, ls)
           \<and> seconds_left ls = 0
           \<and> waits ls = nat (countdown st)
           \<and> history ls = rev (map int [0..<Suc (nat (countdown st))])
           \<and> (\<not> silent st \<and> opts st AND OPT_SUPPRESS_EXIT_INFO = 0 \<longrightarrow>
                stdout pe = out ls @ clear_line @ ''Exit '' @ sprintf_d (status pe) @ '' after ''
                            @ sprintf_d (countdown st) @ '' seconds.'' @ [CHR 0x0A])
           \<and> (countdown st = 0 \<longrightarrow> ls = loop_entry st \<and> waits ls = 0 \<and> out ls = [])"
proof -
  let ?l = "loop_entry st"
  have n: "seconds_left ?l = int (nat (countdown st))"
    using assms(1) by (simp add: loop_entry_def)
  have q: "\<forall>k\<ge>waits ?l. wait_events e k = Select_returns 0" using assms(2) by simp
  have f: "silent st \<or> (\<forall>s. 0 < s \<and> s \<le> seconds_left ?l \<longrightarrow> line_fits st s)"
    using fits_range [OF assms(3)] by (simp add: loop_entry_def)
  from countdown_loop_no_input [OF n q f] obtain ls where
    r: "countdown_loop st (wait_events e) ?l = Inr (Done Timeout, ls)" and
    s0: "seconds_left ls = 0" and
    w: "waits ls = waits ?l + nat (countdown st)" and
    h: "history ls = history ?l @ rev (map int [0..<nat (countdown st)])"
    by blast
  have z: "countdown st = 0 \<longrightarrow> ls = ?l"
  proof
    assume "countdown st = 0"
    then have "countdown_loop st (wait_events e) ?l = Inr (Done Timeout, ?l)"
      by (simp add: countdown_loop_done loop_entry_def)
    with r show "ls = ?l" by simp
  qed
  have h': "history ls = rev (map int [0..<Suc (nat (countdown st))])"
    using h assms(1) by (simp add: loop_entry_def)
  show ?thesis
    using run_result [OF r] s0 w h' z exit_summary_text [of st]
    by (auto simp: loop_entry_def)
qed

lemma three_seconds_fits:
  "silent three_seconds \<or> (\<forall>s\<in>set [1..countdown three_seconds]. line_fits three_seconds s)"
  by code_simp

lemma three_seconds_countdown: "0 \<le> countdown three_seconds"
  by (simp add: three_seconds_def)

lemma quiet_terminal_no_input: "\<forall>k. wait_events quiet_terminal k = Select_returns 0"
  by (simp add: quiet_terminal_def no_input_def)

lemma example_three_seconds_without_input:
  "\<exists>pe ls. run three_seconds quiet_terminal = Inr pe \<and> loop_end pe = Some (Timeout, ls)
           \<and> seconds_left ls = 0 \<and> waits ls = 3 \<and> history ls = [3, 2, 1, 0]"
proof -
  from countdown_without_input [OF three_seconds_countdown quiet_terminal_no_input three_seconds_fits]
  obtain pe ls where
    "run three_seconds quiet_terminal = Inr pe" "loop_end pe = Some (Timeout, ls)"
    "seconds_left ls = 0" "waits ls = nat (countdown three_seconds)"
    "history ls = rev (map int [0..<Suc (nat (countdown three_seconds))])"
    by blast
  moreover have "nat (countdown three_seconds) = 3" by (simp add: three_seconds_def)
  moreover have "rev (map int [0..<Suc 3]) = [3, 2, 1, 0]" by (simp add: upt_rec)
  ultimately show ?thesis by (intro exI [of _ pe] exI [of _ ls]) simp
qed

text \<open>
  When every displayed line fits the buffer and \<^verbatim>\<open>select\<close> reports input for the first
  time at its \<open>k\<close>-th call (\<open>1 \<le> k \<le> N\<close>), the loop is left by \<^verbatim>\<open>break\<close> with
  \<^verbatim>\<open>seconds_left = N - k + 1\<close>, after \<open>k\<close> waits: the value is the one of the last test of
  the loop condition, it is not decremented after the input.
\<close>

lemma interrupted_at_tick:
  assumes "1 \<le> k" and "int k \<le> countdown st"
    and "\<forall>j<k - 1. wait_events e j = Select_returns 0"
    and "wait_events e (k - 1) = Select_returns r" and "r \<noteq> 0"
    and "silent st \<or> (\<forall>s\<in>set [1..countdown st]. line_fits st s)"
  shows "\<exists>pe ls. run st e = Inr pe \<and> loop_end pe = Some (Interrupted, ls)
           \<and> seconds_left ls = countdown st - int k + 1
           \<and> waits ls = k
           \<and> history ls = map (\<lambda>j. countdown st - int j) [0..<k]
           \<and> last (history ls) = seconds_left ls"
proof -
  let ?l = "loop_entry st"
  obtain m where k: "k = Suc m" using assms(1) by (cases k) auto
  have a1: "\<forall>j<m. wait_events e (waits ?l + j) = Select_returns 0"
    using assms(3) k by (simp add: loop_entry_def)
  have a2: "wait_events e (waits ?l + m) = Select_returns r"
    using assms(4) k by (simp add: loop_entry_def)
  have a3: "int m < seconds_left ?l" using assms(2) k by (simp add: loop_entry_def)
  have a4: "silent st \<or> (\<forall>s. seconds_left ?l - int m \<le> s \<and> s \<le> seconds_left ?l \<longrightarrow> line_fits st s)"
    using fits_range [OF assms(6)] a3 by (auto simp: loop_entry_def)
  from countdown_loop_input [OF a1 a2 assms(5) a3 a4] obtain ls where
    r: "countdown_loop st (wait_events e) ?l = Inr (Done Interrupted, ls)" and
    s: "seconds_left ls = seconds_left ?l - int m" and
    w: "waits ls = waits ?l + m + 1" and
    h: "history ls = history ?l @ map (\<lambda>j. seconds_left ?l - 1 - int j) [0..<m]"
    by blast
  have h': "history ls = map (\<lambda>j. countdown st - int j) [0..<k]"
    unfolding k h by (simp add: loop_entry_def map_upt_Suc algebra_simps del: upt_Suc)
  have l: "last (history ls) = seconds_left ls"
    unfolding h' s k by (simp add: loop_entry_def)
  show ?thesis
    using run_result [OF r] s w h' l k by (auto simp: loop_entry_def)
qed

lemma example_three_seconds_key_in_second_tick:
  "\<exists>pe ls. run three_seconds key_in_second_tick = Inr pe \<and> loop_end pe = Some (Interrupted, ls)
           \<and> seconds_left ls = 2 \<and> waits ls = 2 \<and> history ls = [3, 2]"
proof -
  have k: "1 \<le> (2::nat)" by simp
  have n: "int 2 \<le> countdown three_seconds" by (simp add: three_seconds_def)
  have q: "\<forall>j<2 - 1. wait_events key_in_second_tick j = Select_returns 0"
    by (simp add: key_in_second_tick_def key_at_def)
  have i: "wait_events key_in_second_tick (2 - 1) = Select_returns 1"
    by (simp add: key_in_second_tick_def key_at_def)
  have i': "(1::int) \<noteq> 0" by simp
  from interrupted_at_tick [OF k n q i i' three_seconds_fits]
  obtain pe ls where
    "run three_seconds key_in_second_tick = Inr pe" "loop_end pe = Some (Interrupted, ls)"
    "seconds_left ls = countdown three_seconds - int 2 + 1" "waits ls = 2"
    "history ls = map (\<lambda>j. countdown three_seconds - int j) [0..<2]"
    by blast
  moreover have "countdown three_seconds - int 2 + 1 = 2" by (simp add: three_seconds_def)
  moreover have "map (\<lambda>j. countdown three_seconds - int j) [0..<2] = [3, 2]"
    by (simp add: three_seconds_def upt_rec)
  ultimately show ?thesis by (intro exI [of _ pe] exI [of _ ls]) simp
qed

text \<open>
  When every displayed line fits the buffer, the values of \<^verbatim>\<open>seconds_left\<close> at the tests
  of the loop condition start at the countdown, go down by exactly one from each test to
  the next, and stay between 0 and the countdown; the final value is the last of them (a
  \<^verbatim>\<open>break\<close> and a signal leave it unchanged). The loop is left by its condition exactly
  when the final value is 0.
\<close>

lemma seconds_left_invariant:
  assumes "0 \<le> countdown st"
    and "silent st \<or> (\<forall>s\<in>set [1..countdown st]. line_fits st s)"
  shows "\<exists>x ls. countdown_loop st ev (loop_entry st) = Inr (x, ls)
           \<and> history ls = map (\<lambda>j. countdown st - int j) [0..<Suc (nat (countdown st - seconds_left ls))]
           \<and> (\<forall>v\<in>set (history ls). 0 \<le> v \<and> v \<le> countdown st)
           \<and> (\<forall>i. Suc i < length (history ls) \<longrightarrow> history ls ! Suc i = history ls ! i - 1)
           \<and> hd (history ls) = countdown st
           \<and> last (history ls) = seconds_left ls
           \<and> 0 \<le> seconds_left ls \<and> seconds_left ls \<le> countdown st
           \<and> (x = Done Timeout \<longleftrightarrow> seconds_left ls = 0)"
proof -
  let ?l = "loop_entry st"
  let ?N = "countdown st"
  have n: "seconds_left ?l = int (nat ?N)" using assms(1) by (simp add: loop_entry_def)
  have f: "silent st \<or> (\<forall>s. 0 < s \<and> s \<le> seconds_left ?l \<longrightarrow> line_fits st s)"
    using fits_range [OF assms(2)] by (simp add: loop_entry_def)
  from countdown_loop_general [OF n f, of ev] obtain x ls where
    r: "countdown_loop st ev ?l = Inr (x, ls)" and
    lo: "0 \<le> seconds_left ls" and hi: "seconds_left ls \<le> ?N" and
    re: "x = Done Timeout \<longleftrightarrow> seconds_left ls = 0" and
    h: "history ls = history ?l @
          map (\<lambda>j. seconds_left ?l - 1 - int j) [0..<nat (seconds_left ?l - seconds_left ls)]"
    by (auto simp: loop_entry_def)
  let ?d = "nat (?N - seconds_left ls)"
  have h': "history ls = map (\<lambda>j. ?N - int j) [0..<Suc ?d]"
    unfolding h by (simp add: loop_entry_def map_upt_Suc algebra_simps del: upt_Suc)
  have len: "length (history ls) = Suc ?d" unfolding h' by simp
  have nth: "\<And>i. i < Suc ?d \<Longrightarrow> history ls ! i = ?N - int i"
    unfolding h' by (simp del: upt_Suc)
  have rng: "\<forall>v\<in>set (history ls). 0 \<le> v \<and> v \<le> ?N"
    unfolding h' using lo hi by (auto simp del: upt_Suc)
  have stp: "\<forall>i. Suc i < length (history ls) \<longrightarrow> history ls ! Suc i = history ls ! i - 1"
    using nth len by simp
  have hd: "hd (history ls) = ?N" unfolding h' by (simp add: upt_rec)
  have lst: "last (history ls) = seconds_left ls"
    unfolding h' using hi by simp
  from r h' rng stp hd lst lo hi re show ?thesis by blast
qed

text \<open>
  After the loop the final value of \<^verbatim>\<open>seconds_left\<close> is read twice: the status is 1 when
  it is 0 and the flag of \<^verbatim>\<open>-f\<close> is set, otherwise the configured code; the summary
  prints the status and the difference between the countdown and the final value.
\<close>

lemma status_and_summary:
  assumes "countdown_loop st (wait_events e) (loop_entry st) = Inr (Done reason, ls)"
  shows "\<exists>pe. run st e = Inr pe \<and> loop_end pe = Some (reason, ls)
           \<and> status pe = (if seconds_left ls = 0 \<and> opts st AND OPT_FAIL_NO_USER_INTERACTION \<noteq> 0
                           then 1 else uint (exitcode st))
           \<and> (\<not> silent st \<and> opts st AND OPT_SUPPRESS_EXIT_INFO = 0 \<longrightarrow>
                stdout pe = out ls @ clear_line @ ''Exit '' @ sprintf_d (status pe) @ '' after ''
                            @ sprintf_d (countdown st - seconds_left ls) @ '' seconds.''
                            @ [CHR 0x0A])"
  using run_result [OF assms] exit_summary_text [of st]
  by (simp add: final_exitcode_def)

subsection \<open>Option bits\<close>

lemma flag_bit:
  fixes w :: "32 word"
  shows "(w AND OPT_SILENT \<noteq> 0) = bit w 0"
    and "(w AND OPT_HELP \<noteq> 0) = bit w 1"
    and "(w AND OPT_SUPPRESS_EXIT_INFO \<noteq> 0) = bit w 2"
    and "(w AND OPT_FAIL_NO_USER_INTERACTION \<noteq> 0) = bit w 3"
  using and_exp_eq_0_iff_not_bit [of w 0] and_exp_eq_0_iff_not_bit [of w 1]
    and_exp_eq_0_iff_not_bit [of w 2] and_exp_eq_0_iff_not_bit [of w 3]
  by (simp_all add: OPT_SILENT_def OPT_HELP_def OPT_SUPPRESS_EXIT_INFO_def
      OPT_FAIL_NO_USER_INTERACTION_def)

lemma flag_eq0:
  fixes w :: "32 word"
  shows "(w AND OPT_SILENT = 0) = (\<not> bit w 0)"
    and "(w AND OPT_HELP = 0) = (\<not> bit w 1)"
    and "(w AND OPT_SUPPRESS_EXIT_INFO = 0) = (\<not> bit w 2)"
    and "(w AND OPT_FAIL_NO_USER_INTERACTION = 0) = (\<not> bit w 3)"
  using flag_bit [of w] by auto

lemma flags_as_powers:
  "OPT_SILENT = 2 ^ 0" "OPT_HELP = 2 ^ 1" "OPT_SUPPRESS_EXIT_INFO = 2 ^ 2"
  "OPT_FAIL_NO_USER_INTERACTION = 2 ^ 3"
  by (simp_all add: OPT_SILENT_def OPT_HELP_def OPT_SUPPRESS_EXIT_INFO_def
      OPT_FAIL_NO_USER_INTERACTION_def)

lemma bit_or_exp:
  fixes w :: "32 word"
  shows "bit (w OR 2 ^ k) n = (bit w n \<or> (n = k \<and> k < 32))"
  by (auto simp add: bit_simps dest: bit_imp_le_length)

lemma bit_and_not_exp:
  fixes w :: "32 word"
  shows "bit (w AND NOT (2 ^ k)) n = (bit w n \<and> n \<noteq> k)"
  by (auto simp add: bit_simps dest: bit_imp_le_length)

lemma bit_set_flag:
  fixes w :: "32 word"
  shows "bit (w OR OPT_SILENT) n = (bit w n \<or> n = 0)"
    and "bit (w OR OPT_HELP) n = (bit w n \<or> n = 1)"
    and "bit (w OR OPT_SUPPRESS_EXIT_INFO) n = (bit w n \<or> n = 2)"
    and "bit (w OR OPT_FAIL_NO_USER_INTERACTION) n = (bit w n \<or> n = 3)"
    and "bit (w AND NOT OPT_FAIL_NO_USER_INTERACTION) n = (bit w n \<and> n \<noteq> 3)"
  by (simp_all only: flags_as_powers bit_or_exp bit_and_not_exp) simp_all

subsection \<open>Parsing the arguments\<close>

lemma uint_exitcode: "0 \<le> v \<Longrightarrow> v \<le> 255 \<Longrightarrow> uint (word_of_int v :: 8 word) = v"
  by (simp add: uint_word_of_int)

lemma parse_option_accepted:
  assumes "parse_option prog r st = Accepted st'"
  shows "countdown st' = countdown st"
    and "bit (opts st') 0 \<longleftrightarrow> bit (opts st) 0 \<or> getopt_char r = CHR ''s''"
    and "bit (opts st') 1 \<longleftrightarrow> bit (opts st) 1 \<or> getopt_char r = CHR ''h''"
    and "length (template st) \<le> 255 \<Longrightarrow> length (template st') \<le> 255"
    and "getopt_char r \<noteq> CHR ''?''"
    and "\<not> invalid_option r"
  using assms
  by (auto simp: parse_option_def Let_def bit_set_flag strnlen_def invalid_option_def
      getopt_char_def getopt_optarg_def
      split: if_splits option.splits getopt_ret.splits)

lemma parse_option_exit:
  assumes "parse_option prog r st = Accepted st'"
  shows "getopt_char r = CHR ''f'' \<Longrightarrow> exitcode st' = 0 \<and> bit (opts st') 3"
    and "getopt_char r = CHR ''e'' \<Longrightarrow>
           \<exists>v. sscanf_i (getopt_optarg r) = Some v \<and> 0 \<le> v \<and> v \<le> 255
               \<and> exitcode st' = word_of_int v \<and> \<not> bit (opts st') 3"
    and "getopt_char r \<noteq> CHR ''f'' \<Longrightarrow> getopt_char r \<noteq> CHR ''e'' \<Longrightarrow>
           exitcode st' = exitcode st \<and> bit (opts st') 3 = bit (opts st) 3"
  using assms
  by (auto simp: parse_option_def Let_def bit_set_flag split: if_splits option.splits)

lemma parse_option_rejected:
  assumes "parse_option prog r st = Rejected msg"
  shows "msg \<noteq> [] \<or> (\<exists>a. r = Opt (CHR ''?'') a)"
  using assms
  by (auto simp: parse_option_def Let_def getopt_diagnostic_def getopt_char_def
      split: if_splits option.splits getopt_ret.splits)

lemma parse_option_undefined:
  "parse_option prog r st = Undefined f \<Longrightarrow> f = Conversion_overflow"
  by (auto simp: parse_option_def Let_def split: if_splits option.splits)

lemma parse_options_Cons:
  "parse_options prog (r # rs) st = Accepted st' \<Longrightarrow>
   \<exists>st1. parse_option prog r st = Accepted st1 \<and> parse_options prog rs st1 = Accepted st'"
  by (auto split: parse_result.splits)

lemma parse_options_countdown:
  "parse_options prog rs st = Accepted st' \<Longrightarrow> countdown st' = countdown st"
proof (induction rs arbitrary: st)
  case Nil
  then show ?case by simp
next
  case (Cons r rs)
  from parse_options_Cons [OF Cons.prems] obtain st1 where
    a: "parse_option prog r st = Accepted st1" and b: "parse_options prog rs st1 = Accepted st'"
    by blast
  from Cons.IH [OF b] parse_option_accepted(1) [OF a] show ?case by simp
qed

lemma parse_options_silent:
  "parse_options prog rs st = Accepted st' \<Longrightarrow>
   bit (opts st') 0 \<longleftrightarrow> bit (opts st) 0 \<or> (\<exists>r\<in>set rs. getopt_char r = CHR ''s'')"
proof (induction rs arbitrary: st)
  case Nil
  then show ?case by simp
next
  case (Cons r rs)
  from parse_options_Cons [OF Cons.prems] obtain st1 where
    a: "parse_option prog r st = Accepted st1" and b: "parse_options prog rs st1 = Accepted st'"
    by blast
  from Cons.IH [OF b] parse_option_accepted(2) [OF a] show ?case by auto
qed

lemma parse_options_help:
  "parse_options prog rs st = Accepted st' \<Longrightarrow>
   bit (opts st') 1 \<longleftrightarrow> bit (opts st) 1 \<or> (\<exists>r\<in>set rs. getopt_char r = CHR ''h'')"
proof (induction rs arbitrary: st)
  case Nil
  then show ?case by simp
next
  case (Cons r rs)
  from parse_options_Cons [OF Cons.prems] obtain st1 where
    a: "parse_option prog r st = Accepted st1" and b: "parse_options prog rs st1 = Accepted st'"
    by blast
  from Cons.IH [OF b] parse_option_accepted(3) [OF a] show ?case by auto
qed

lemma parse_options_template:
  "parse_options prog rs st = Accepted st' \<Longrightarrow> length (template st) \<le> 255 \<Longrightarrow>
   length (template st') \<le> 255"
proof (induction rs arbitrary: st)
  case Nil
  then show ?case by simp
next
  case (Cons r rs)
  from parse_options_Cons [OF Cons.prems(1)] obtain st1 where
    a: "parse_option prog r st = Accepted st1" and b: "parse_options prog rs st1 = Accepted st'"
    by blast
  from Cons.IH [OF b] parse_option_accepted(4) [OF a] Cons.prems(2) show ?case by simp
qed

lemma parse_options_valid:
  "parse_options prog rs st = Accepted st' \<Longrightarrow> \<forall>r\<in>set rs. \<not> invalid_option r"
proof (induction rs arbitrary: st)
  case Nil
  then show ?case by simp
next
  case (Cons r rs)
  from parse_options_Cons [OF Cons.prems] obtain st1 where
    a: "parse_option prog r st = Accepted st1" and b: "parse_options prog rs st1 = Accepted st'"
    by blast
  from Cons.IH [OF b] parse_option_accepted(6) [OF a] show ?case by simp
qed

lemma parse_options_undefined:
  "parse_options prog rs st = Undefined f \<Longrightarrow> f = Conversion_overflow"
proof (induction rs arbitrary: st)
  case Nil
  then show ?case by simp
next
  case (Cons r rs)
  then show ?case
    by (auto split: parse_result.splits dest: parse_option_undefined)
qed

lemma parse_options_rejected:
  "parse_options prog rs st = Rejected msg \<Longrightarrow> \<forall>r\<in>set rs. \<forall>a. r \<noteq> Opt (CHR ''?'') a \<Longrightarrow>
   msg \<noteq> []"
proof (induction rs arbitrary: st)
  case Nil
  then show ?case by simp
next
  case (Cons r rs)
  show ?case
  proof (cases "parse_option prog r st")
    case (Undefined f)
    with Cons.prems show ?thesis by simp
  next
    case (Rejected m)
    with Cons.prems parse_option_rejected [OF Rejected] show ?thesis by auto
  next
    case (Accepted st1)
    with Cons.prems Cons.IH [of st1] show ?thesis by simp
  qed
qed

lemma parse_options_exit:
  assumes "parse_options prog rs st = Accepted st'"
  shows "case last_exit_option rs of
           None \<Rightarrow> exitcode st' = exitcode st \<and> bit (opts st') 3 = bit (opts st) 3
         | Some r \<Rightarrow>
             if getopt_char r = CHR ''f'' then exitcode st' = 0 \<and> bit (opts st') 3
             else \<exists>v. sscanf_i (getopt_optarg r) = Some v \<and> 0 \<le> v \<and> v \<le> 255
                      \<and> exitcode st' = word_of_int v \<and> \<not> bit (opts st') 3"
  using assms
proof (induction rs arbitrary: st)
  case Nil
  then show ?case by simp
next
  case (Cons r rs)
  from parse_options_Cons [OF Cons.prems] obtain st1 where
    a: "parse_option prog r st = Accepted st1" and b: "parse_options prog rs st1 = Accepted st'"
    by blast
  show ?case
  proof (cases "last_exit_option rs")
    case (Some x)
    with Cons.IH [OF b] show ?thesis by simp
  next
    case None
    with Cons.IH [OF b] have keep: "exitcode st' = exitcode st1" "bit (opts st') 3 = bit (opts st1) 3"
      by simp_all
    consider "getopt_char r = CHR ''f''" | "getopt_char r = CHR ''e''"
      | "getopt_char r \<noteq> CHR ''f''" "getopt_char r \<noteq> CHR ''e''" by blast
    then show ?thesis
    proof cases
      case 1
      with parse_option_exit(1) [OF a] keep None show ?thesis by simp
    next
      case 2
      with parse_option_exit(2) [OF a] keep None show ?thesis by simp
    next
      case 3
      with parse_option_exit(3) [OF a] keep None show ?thesis by simp
    qed
  qed
qed

lemma last_exit_option_char:
  "last_exit_option rs = Some r \<Longrightarrow>
   r \<in> set rs \<and> (getopt_char r = CHR ''e'' \<or> getopt_char r = CHR ''f'')"
proof (induction rs)
  case Nil
  then show ?case by simp
next
  case (Cons x rs)
  show ?case
  proof (cases "last_exit_option rs")
    case None
    with Cons.prems show ?thesis by (simp split: if_splits)
  next
    case (Some y)
    with Cons show ?thesis by simp
  qed
qed

lemma last_exit_option_None:
  "last_exit_option rs = None \<longleftrightarrow>
   (\<forall>r\<in>set rs. getopt_char r \<noteq> CHR ''e'' \<and> getopt_char r \<noteq> CHR ''f'')"
proof (induction rs)
  case Nil
  then show ?case by simp
next
  case (Cons x rs)
  show ?case
  proof (cases "last_exit_option rs")
    case None
    with Cons show ?thesis by simp
  next
    case (Some y)
    with Cons show ?thesis by simp
  qed
qed

lemma last_exit_option_only_f:
  assumes "\<exists>r\<in>set rs. getopt_char r = CHR ''f''" and "\<forall>r\<in>set rs. getopt_char r \<noteq> CHR ''e''"
  shows "\<exists>r. last_exit_option rs = Some r \<and> getopt_char r = CHR ''f''"
proof (cases "last_exit_option rs")
  case None
  with assms(1) last_exit_option_None [of rs] show ?thesis by simp
next
  case (Some r)
  from last_exit_option_char [OF Some] assms(2) have "getopt_char r = CHR ''f''" by blast
  with Some show ?thesis by simp
qed

lemma getopt_scan_chars:
  "Opt c a \<in> set (fst (getopt_scan cl args nonopts)) \<Longrightarrow>
   c \<in> set optstring_flags \<or> c \<in> set optstring_with_argument"
  by (induction cl args nonopts rule: getopt_scan.induct)
     (auto split: if_splits list.splits)

lemma getopt_results_no_question_mark:
  "\<forall>r\<in>set (getopt_results argv). \<forall>a. r \<noteq> Opt (CHR ''?'') a"
proof (intro ballI allI notI)
  fix r a
  assume "r \<in> set (getopt_results argv)" and "r = Opt (CHR ''?'') a"
  then have "Opt (CHR ''?'') a \<in> set (fst (getopt_scan [] (tl argv) []))"
    by (simp add: getopt_results_def)
  from getopt_scan_chars [OF this] show False
    by (simp add: optstring_flags_def optstring_with_argument_def)
qed

lemma parse_countdown_accepted:
  assumes "parse_countdown rest st0 = Accepted st"
  shows "opts st = opts st0" and "exitcode st = exitcode st0" and "template st = template st0"
    and "rest = [] \<Longrightarrow> st = st0"
    and "\<not> invalid_countdown rest"
    and "rest \<noteq> [] \<Longrightarrow> 0 \<le> countdown st"
  using assms
  by (auto simp: parse_countdown_def invalid_countdown_def split: list.splits option.splits if_splits)

lemma parse_countdown_rejected:
  "parse_countdown rest st0 = Rejected msg \<Longrightarrow> msg \<noteq> []"
  by (auto simp: parse_countdown_def split: list.splits option.splits if_splits)

lemma parse_countdown_undefined:
  "parse_countdown rest st0 = Undefined f \<Longrightarrow> f = Conversion_overflow"
  by (auto simp: parse_countdown_def split: list.splits option.splits if_splits)

lemma parse_arguments_accepted:
  assumes "parse_arguments argv = Accepted st"
  shows "\<exists>st0. parse_options (program_name argv) (getopt_results argv) initial_settings = Accepted st0
              \<and> parse_countdown (remaining_arguments argv) st0 = Accepted st"
  using assms by (auto simp: parse_arguments_def split: parse_result.splits)

lemma parse_arguments_rejected:
  assumes "parse_arguments argv = Rejected msg"
  shows "msg \<noteq> []"
proof (cases "parse_options (program_name argv) (getopt_results argv) initial_settings")
  case (Undefined f)
  with assms show ?thesis by (simp add: parse_arguments_def)
next
  case (Rejected m)
  with assms have "m = msg" by (simp add: parse_arguments_def)
  with parse_options_rejected [OF Rejected getopt_results_no_question_mark] show ?thesis by simp
next
  case (Accepted st0)
  with assms have "parse_countdown (remaining_arguments argv) st0 = Rejected msg"
    by (simp add: parse_arguments_def)
  then show ?thesis by (rule parse_countdown_rejected)
qed

lemma parse_arguments_undefined:
  assumes "parse_arguments argv = Undefined f"
  shows "f = Conversion_overflow"
  using assms
  by (auto simp: parse_arguments_def split: parse_result.splits
      dest: parse_options_undefined parse_countdown_undefined)

lemma parse_arguments_invalid:
  assumes "(\<exists>r\<in>set (getopt_results argv). invalid_option r)
           \<or> invalid_countdown (remaining_arguments argv)"
  shows "parse_arguments argv \<noteq> Accepted st"
proof
  assume "parse_arguments argv = Accepted st"
  from parse_arguments_accepted [OF this] obtain st0 where
    a: "parse_options (program_name argv) (getopt_results argv) initial_settings = Accepted st0" and
    b: "parse_countdown (remaining_arguments argv) st0 = Accepted st" by blast
  from parse_options_valid [OF a] parse_countdown_accepted(5) [OF b] assms show False by blast
qed

lemma process_exit_start: "process_exit (process_start e) = process_start e"
  by (simp add: process_exit_def process_start_def)

lemma early_return_fields:
  "status (early_return code msg (process_start e)) = code"
  "killed_by (early_return code msg (process_start e)) = None"
  "stdout (early_return code msg (process_start e)) = []"
  "stderr (early_return code msg (process_start e)) = msg"
  "terminal (early_return code msg (process_start e)) = tty_attrs e"
  "reset_runs (early_return code msg (process_start e)) = 0"
  "loop_end (early_return code msg (process_start e)) = None"
  by (simp_all add: early_return_def process_exit_start Let_def) (simp_all add: process_start_def)

lemma main_rejected:
  "parse_arguments argv = Rejected msg \<Longrightarrow>
   main argv e = Inr (early_return 1 msg (process_start e))"
  by (simp add: main_def)

lemma main_accepted:
  "parse_arguments argv = Accepted st \<Longrightarrow>
   main argv e =
     (if bit (opts st) 1 then
        (case usage_text e of
           None \<Rightarrow> Inl Usage_overrun
         | Some text \<Rightarrow> Inr (early_return 0 text (process_start e)))
      else if countdown st < 0 then Inr (early_return 1 missing_countdown_message (process_start e))
      else run st e)"
  by (simp add: main_def flag_bit)

lemma main_loop_end:
  assumes "main argv e = Inr pe" and "loop_end pe = Some x"
  shows "\<exists>st. parse_arguments argv = Accepted st \<and> \<not> bit (opts st) 1 \<and> 0 \<le> countdown st
              \<and> run st e = Inr pe"
proof (cases "parse_arguments argv")
  case (Undefined f)
  with assms show ?thesis by (simp add: main_def)
next
  case (Rejected msg)
  with assms main_rejected [OF Rejected, of e] show ?thesis
    by (auto simp: early_return_fields)
next
  case (Accepted st)
  with assms main_accepted [OF Accepted, of e] show ?thesis
    by (auto simp: early_return_fields split: if_splits option.splits)
qed

subsection \<open>Concrete runs\<close>

lemma results_s_f: "getopt_results [''waitexit'', ''-s'', ''-f'', ''3''] = [Opt (CHR ''s'') [], Opt (CHR ''f'') []]"
  by code_simp

lemma results_e_f: "getopt_results [''waitexit'', ''-s'', ''-e'', ''5'', ''-f'', ''3''] = [Opt (CHR ''s'') [], Opt (CHR ''e'') ''5'', Opt (CHR ''f'') []]"
  by code_simp

lemma main_s_f:
  "main [''waitexit'', ''-s'', ''-f'', ''3''] quiet_terminal =
     Inr \<lparr>status = 1, killed_by = None, stdout = [], stderr = [], terminal = cooked_terminal, reset_runs = 1,
          loop_end = Some (Timeout, \<lparr>seconds_left = 0, waits = 3, out = [], history = [3, 2, 1, 0]\<rparr>)\<rparr>"
  by code_simp

lemma main_s_e_f:
  "main [''waitexit'', ''-s'', ''-e'', ''5'', ''-f'', ''3''] quiet_terminal =
     Inr \<lparr>status = 1, killed_by = None, stdout = [], stderr = [], terminal = cooked_terminal, reset_runs = 1,
          loop_end = Some (Timeout, \<lparr>seconds_left = 0, waits = 3, out = [], history = [3, 2, 1, 0]\<rparr>)\<rparr>"
  by code_simp

lemma main_s_e_f_key:
  "main [''waitexit'', ''-s'', ''-e'', ''5'', ''-f'', ''3''] key_in_second_tick =
     Inr \<lparr>status = 0, killed_by = None, stdout = [], stderr = [], terminal = cooked_terminal, reset_runs = 1,
          loop_end = Some (Interrupted, \<lparr>seconds_left = 2, waits = 2, out = [], history = [3, 2]\<rparr>)\<rparr>"
  by code_simp

lemma main_h:
  "main [''waitexit'', ''-h''] quiet_terminal =
     Inr \<lparr>status = 0, killed_by = None, stdout = [], stderr = ''Use: waitexit [opts] N'', terminal = cooked_terminal,
          reset_runs = 0, loop_end = None\<rparr>"
  by code_simp

lemma results_s_f_e:
  "getopt_results [''waitexit'', ''-s'', ''-f'', ''-e'', ''5'', ''3'']
     = [Opt (CHR ''s'') [], Opt (CHR ''f'') [], Opt (CHR ''e'') ''5'']"
  by code_simp

lemma main_s_f_e_key:
  "main [''waitexit'', ''-s'', ''-f'', ''-e'', ''5'', ''3''] key_in_second_tick =
     Inr \<lparr>status = 5, killed_by = None, stdout = [], stderr = [], terminal = cooked_terminal, reset_runs = 1,
          loop_end = Some (Interrupted, \<lparr>seconds_left = 2, waits = 2, out = [], history = [3, 2]\<rparr>)\<rparr>"
  by code_simp

lemma scan_5: "sscanf_i ''5'' = Some 5"
  by code_simp

lemma silent_three_seconds_silent: "silent silent_three_seconds"
  by (simp add: silent_three_seconds_def silent_def OPT_SILENT_def)

lemma quiet_terminal_tty: "isatty (process_start quiet_terminal)"
  by (simp add: process_start_def quiet_terminal_def)

lemma redirected_input_not_tty: "\<not> isatty (process_start redirected_input)"
  by (simp add: process_start_def redirected_input_def quiet_terminal_def)

text \<open>\<^verbatim>\<open>%i\<close> stops at the first character that is not a digit: text after a number is ignored.\<close>

lemma trailing_text_accepted:
  "parse_arguments [''waitexit'', ''-e'', ''5x'', ''3abc'']
     = Accepted (initial_settings\<lparr>countdown := 3, exitcode := 5\<rparr>)"
  by code_simp

subsection \<open>Exit status\<close>

lemma countdown_loop_reason:
  "countdown_loop st ev l = Inr (Done reason, ls) \<Longrightarrow> 0 \<le> seconds_left l \<Longrightarrow>
   (reason = Timeout \<and> seconds_left ls = 0) \<or> (reason = Interrupted \<and> 0 < seconds_left ls)"
proof (induction st ev l rule: countdown_loop.induct)
  case (1 st ev l)
  show ?case
  proof (cases "0 < seconds_left l")
    case False
    with "1.prems" show ?thesis by (simp add: countdown_loop_done)
  next
    case True
    from "1.prems"(1) True obtain b l1 where
      b: "loop_body st ev l = Inr (b, l1)" and
      c: "(case b of Next_test \<Rightarrow> countdown_loop st ev l1
           | Break \<Rightarrow> Inr (Done Interrupted, l1)
           | Killed n \<Rightarrow> Inr (Killed_in_wait n, l1)) = Inr (Done reason, ls)"
      by (subst (asm) countdown_loop.simps) (auto split: sum.splits)
    show ?thesis
    proof (cases b)
      case Break
      with c loop_body_step(1) [OF b] True show ?thesis by simp
    next
      case (Killed n)
      with c show ?thesis by simp
    next
      case Next_test
      with c have r: "countdown_loop st ev l1 = Inr (Done reason, ls)" by simp
      from Next_test loop_body_step(1) [OF b] True have "0 \<le> seconds_left l1" by simp
      from "1.IH" [OF True b [unfolded Next_test] refl refl r this] show ?thesis .
    qed
  qed
qed

lemma run_inr:
  assumes "run st e = Inr pe" and "loop_end pe = Some (reason, ls)"
  shows "countdown_loop st (wait_events e) (loop_entry st) = Inr (Done reason, ls)
           \<and> killed_by pe = None
           \<and> status pe = final_exitcode st (seconds_left ls)
           \<and> stdout pe = out ls @ exit_summary st (status pe) (countdown st) (seconds_left ls)
           \<and> stderr pe = []
           \<and> terminal pe = attrs (process_exit (init_termio (process_start e)))
           \<and> reset_runs pe = resets (process_exit (init_termio (process_start e)))"
  using assms by (auto simp: run_def Let_def split: sum.splits loop_exit.splits)

lemma run_cases:
  assumes "run st e = Inr pe"
  shows "(\<exists>reason ls. countdown_loop st (wait_events e) (loop_entry st) = Inr (Done reason, ls)
            \<and> loop_end pe = Some (reason, ls) \<and> killed_by pe = None
            \<and> terminal pe = attrs (process_exit (init_termio (process_start e)))
            \<and> reset_runs pe = resets (process_exit (init_termio (process_start e))))
         \<or> (\<exists>n ls. countdown_loop st (wait_events e) (loop_entry st) = Inr (Killed_in_wait n, ls)
            \<and> loop_end pe = None \<and> killed_by pe = Some n
            \<and> terminal pe = attrs (init_termio (process_start e))
            \<and> reset_runs pe = resets (init_termio (process_start e)))"
  using assms by (auto simp: run_def Let_def split: sum.splits loop_exit.splits)

text \<open>
  Claim C3, amended. Of the options \<^verbatim>\<open>-e\<close> and \<^verbatim>\<open>-f\<close> the last one on the command line
  decides the exit status of a run that reaches the loop. If it is \<^verbatim>\<open>-f\<close> (in particular
  when \<^verbatim>\<open>-f\<close> is given and \<^verbatim>\<open>-e\<close> is not, but also when \<^verbatim>\<open>-e CODE\<close> stands before it),
  the status is 1 after a timeout and 0 after a key press. If it is \<^verbatim>\<open>-e CODE\<close> (also
  when \<^verbatim>\<open>-f\<close> stands before it), the status is \<open>CODE\<close> in both cases. With neither
  option the status is 0.
\<close>

theorem exit_code_resolution:
  assumes "main argv e = Inr pe" and "loop_end pe = Some (reason, ls)"
  shows "((\<exists>r\<in>set (getopt_results argv). getopt_char r = CHR ''f'')
          \<and> (\<forall>r\<in>set (getopt_results argv). getopt_char r \<noteq> CHR ''e'')
          \<longrightarrow> status pe = (if reason = Timeout then 1 else 0))
       \<and> (case last_exit_option (getopt_results argv) of
            None \<Rightarrow> status pe = 0
          | Some r \<Rightarrow>
              if getopt_char r = CHR ''f'' then status pe = (if reason = Timeout then 1 else 0)
              else sscanf_i (getopt_optarg r) = Some (status pe))"
proof -
  from main_loop_end [OF assms] obtain st where
    p: "parse_arguments argv = Accepted st" and n: "0 \<le> countdown st" and r: "run st e = Inr pe"
    by blast
  from run_inr [OF r assms(2)] have
    l: "countdown_loop st (wait_events e) (loop_entry st) = Inr (Done reason, ls)" and
    s: "status pe = final_exitcode st (seconds_left ls)"
    by auto
  from countdown_loop_reason [OF l] n have
    t: "(reason = Timeout \<and> seconds_left ls = 0) \<or> (reason = Interrupted \<and> 0 < seconds_left ls)"
    by (simp add: loop_entry_def)
  from parse_arguments_accepted [OF p] obtain st0 where
    a: "parse_options (program_name argv) (getopt_results argv) initial_settings = Accepted st0" and
    b: "parse_countdown (remaining_arguments argv) st0 = Accepted st" by blast
  have o: "opts st = opts st0" "exitcode st = exitcode st0"
    using parse_countdown_accepted(1,2) [OF b] by simp_all
  let ?rs = "getopt_results argv"
  have main: "case last_exit_option ?rs of
            None \<Rightarrow> status pe = 0
          | Some r \<Rightarrow>
              if getopt_char r = CHR ''f'' then status pe = (if reason = Timeout then 1 else 0)
              else sscanf_i (getopt_optarg r) = Some (status pe)"
  proof (cases "last_exit_option ?rs")
    case None
    with parse_options_exit [OF a] have "exitcode st0 = 0" "\<not> bit (opts st0) 3"
      by (simp_all add: initial_settings_def)
    with None s o show ?thesis by (simp add: final_exitcode_def flag_bit)
  next
    case (Some x)
    show ?thesis
    proof (cases "getopt_char x = CHR ''f''")
      case True
      with Some parse_options_exit [OF a] have "exitcode st0 = 0" "bit (opts st0) 3" by simp_all
      with Some True s o t show ?thesis by (auto simp: final_exitcode_def flag_bit)
    next
      case False
      with Some parse_options_exit [OF a] obtain v where
        v: "sscanf_i (getopt_optarg x) = Some v" "0 \<le> v" "v \<le> 255"
           "exitcode st0 = word_of_int v" "\<not> bit (opts st0) 3"
        by auto
      with s o have "status pe = v" by (simp add: final_exitcode_def flag_bit uint_exitcode)
      with Some False v(1) show ?thesis by simp
    qed
  qed
  show ?thesis
  proof (intro conjI impI)
    assume h: "(\<exists>r\<in>set ?rs. getopt_char r = CHR ''f'') \<and> (\<forall>r\<in>set ?rs. getopt_char r \<noteq> CHR ''e'')"
    then obtain x where "last_exit_option ?rs = Some x" "getopt_char x = CHR ''f''"
      using last_exit_option_only_f [of ?rs] by blast
    with main show "status pe = (if reason = Timeout then 1 else 0)" by simp
  next
    show "case last_exit_option ?rs of
            None \<Rightarrow> status pe = 0
          | Some r \<Rightarrow>
              if getopt_char r = CHR ''f'' then status pe = (if reason = Timeout then 1 else 0)
              else sscanf_i (getopt_optarg r) = Some (status pe)" by (rule main)
  qed
qed

theorem exit_code_resolution_witness:
  "(\<exists>pe ls. main [''waitexit'', ''-s'', ''-f'', ''3''] quiet_terminal = Inr pe
        \<and> loop_end pe = Some (Timeout, ls) \<and> status pe = 1)
   \<and> (\<exists>pe ls. main [''waitexit'', ''-s'', ''-e'', ''5'', ''-f'', ''3''] key_in_second_tick = Inr pe
        \<and> loop_end pe = Some (Interrupted, ls) \<and> status pe = 0)
   \<and> (\<exists>pe ls. main [''waitexit'', ''-s'', ''-f'', ''-e'', ''5'', ''3''] key_in_second_tick = Inr pe
        \<and> loop_end pe = Some (Interrupted, ls) \<and> status pe = 5)"
proof (intro conjI)
  define ls where "ls = \<lparr>seconds_left = 0, waits = 3, out = [], history = [3, 2, 1, 0 :: int]\<rparr>"
  define pe where "pe = \<lparr>status = 1, killed_by = None, stdout = [], stderr = [],
    terminal = cooked_terminal,
    reset_runs = 1, loop_end = Some (Timeout, ls)\<rparr>"
  have m: "main [''waitexit'', ''-s'', ''-f'', ''3''] quiet_terminal = Inr pe"
    unfolding pe_def ls_def by (rule main_s_f)
  have l: "loop_end pe = Some (Timeout, ls)" by (simp add: pe_def)
  from exit_code_resolution [OF m l] have "status pe = 1"
    by (simp add: results_s_f getopt_char_def)
  with m l show "\<exists>pe ls. main [''waitexit'', ''-s'', ''-f'', ''3''] quiet_terminal = Inr pe
        \<and> loop_end pe = Some (Timeout, ls) \<and> status pe = 1" by blast
next
  define ls where "ls = \<lparr>seconds_left = 2, waits = 2, out = [], history = [3, 2 :: int]\<rparr>"
  define pe where "pe = \<lparr>status = 0, killed_by = None, stdout = [], stderr = [],
    terminal = cooked_terminal,
    reset_runs = 1, loop_end = Some (Interrupted, ls)\<rparr>"
  have m: "main [''waitexit'', ''-s'', ''-e'', ''5'', ''-f'', ''3''] key_in_second_tick = Inr pe"
    unfolding pe_def ls_def by (rule main_s_e_f_key)
  have l: "loop_end pe = Some (Interrupted, ls)" by (simp add: pe_def)
  from exit_code_resolution [OF m l] have "status pe = 0"
    by (simp add: results_e_f getopt_char_def)
  with m l show "\<exists>pe ls. main [''waitexit'', ''-s'', ''-e'', ''5'', ''-f'', ''3''] key_in_second_tick = Inr pe
        \<and> loop_end pe = Some (Interrupted, ls) \<and> status pe = 0" by blast
next
  define ls where "ls = \<lparr>seconds_left = 2, waits = 2, out = [], history = [3, 2 :: int]\<rparr>"
  define pe where "pe = \<lparr>status = 5, killed_by = None, stdout = [], stderr = [],
    terminal = cooked_terminal,
    reset_runs = 1, loop_end = Some (Interrupted, ls)\<rparr>"
  have m: "main [''waitexit'', ''-s'', ''-f'', ''-e'', ''5'', ''3''] key_in_second_tick = Inr pe"
    unfolding pe_def ls_def by (rule main_s_f_e_key)
  have l: "loop_end pe = Some (Interrupted, ls)" by (simp add: pe_def)
  from exit_code_resolution [OF m l] have "status pe = 5"
    by (simp add: results_s_f_e getopt_char_def getopt_optarg_def scan_5)
  with m l show "\<exists>pe ls. main [''waitexit'', ''-s'', ''-f'', ''-e'', ''5'', ''3''] key_in_second_tick = Inr pe
        \<and> loop_end pe = Some (Interrupted, ls) \<and> status pe = 5" by blast
qed

text \<open>
  The claim as it was stated fails: with \<^verbatim>\<open>-e 5 -f\<close> the status is not 5, it is 1 after
  a timeout and 0 after a key press.
\<close>

theorem explicit_exit_code_overridden:
  "map_sum id status (main [''waitexit'', ''-e'', ''5'', ''-f'', ''3''] quiet_terminal) = Inr 1
   \<and> map_sum id status (main [''waitexit'', ''-e'', ''5'', ''-f'', ''3''] key_in_second_tick) = Inr 0"
  by code_simp

subsection \<open>Silence\<close>

lemma silent_bit: "silent st = bit (opts st) 0"
  by (simp add: silent_def flag_bit)

lemma run_silent:
  assumes "silent st"
  shows "\<exists>pe. run st e = Inr pe \<and> stdout pe = []"
proof -
  have "\<exists>x ls. countdown_loop st (wait_events e) (loop_entry st) = Inr (x, ls) \<and> out ls = []"
  proof (cases "0 \<le> countdown st")
    case True
    then have n: "seconds_left (loop_entry st) = int (nat (countdown st))"
      by (simp add: loop_entry_def)
    from countdown_loop_general [OF n, of st "wait_events e"] assms
    show ?thesis by (auto simp: loop_entry_def)
  next
    case False
    then show ?thesis by (simp add: countdown_loop_done loop_entry_def)
  qed
  then obtain x ls where
    r: "countdown_loop st (wait_events e) (loop_entry st) = Inr (x, ls)" and o: "out ls = []"
    by blast
  show ?thesis
  proof (cases x)
    case (Done reason)
    from run_result [OF r [unfolded Done]] o assms show ?thesis by (simp add: exit_summary_def)
  next
    case (Killed_in_wait n)
    from run_killed [OF r [unfolded Killed_in_wait]] o show ?thesis by simp
  qed
qed

lemma main_silent:
  assumes "\<exists>r\<in>set (getopt_results argv). getopt_char r = CHR ''s''" and "main argv e = Inr pe"
  shows "stdout pe = []"
proof (cases "parse_arguments argv")
  case (Undefined f)
  with assms(2) show ?thesis by (simp add: main_def)
next
  case (Rejected msg)
  with assms(2) main_rejected [OF Rejected, of e] show ?thesis by (auto simp: early_return_fields)
next
  case (Accepted st)
  from parse_arguments_accepted [OF Accepted] obtain st0 where
    a: "parse_options (program_name argv) (getopt_results argv) initial_settings = Accepted st0" and
    b: "parse_countdown (remaining_arguments argv) st0 = Accepted st" by blast
  from parse_options_silent [OF a] assms(1) have "bit (opts st0) 0" by auto
  with parse_countdown_accepted(1) [OF b] have s: "silent st" by (simp add: silent_bit)
  from run_silent [OF s, of e] assms(2) main_accepted [OF Accepted, of e] show ?thesis
    by (auto simp: early_return_fields split: if_splits option.splits)
qed

text \<open>
  Claim C7. With the silent flag nothing is written to standard output: not by the rest of
  \<^verbatim>\<open>main\<close> from \<^verbatim>\<open>init_termio\<close> on, whatever the countdown and whatever \<^verbatim>\<open>select\<close>
  returns (and that part always returns: nothing is rendered into the buffer), and not
  by any run of \<^verbatim>\<open>main\<close> with \<^verbatim>\<open>-s\<close> among its options.
\<close>

theorem silent_writes_nothing:
  "(silent st \<longrightarrow> (\<exists>pe. run st e = Inr pe \<and> stdout pe = []))
   \<and> ((\<exists>r\<in>set (getopt_results argv). getopt_char r = CHR ''s'') \<and> main argv e' = Inr pe'
        \<longrightarrow> stdout pe' = [])"
  using run_silent [of st e] main_silent [of argv e' pe'] by blast

theorem silent_writes_nothing_witness:
  "silent silent_three_seconds
   \<and> (\<exists>pe. run silent_three_seconds key_in_second_tick = Inr pe \<and> stdout pe = [])
   \<and> getopt_results [''waitexit'', ''-s'', ''-f'', ''3''] = [Opt (CHR ''s'') [], Opt (CHR ''f'') []]
   \<and> (\<exists>pe. main [''waitexit'', ''-s'', ''-f'', ''3''] quiet_terminal = Inr pe \<and> stdout pe = [])"
proof -
  define ls where "ls = \<lparr>seconds_left = 0, waits = 3, out = [], history = [3, 2, 1, 0 :: int]\<rparr>"
  define pe' where "pe' = \<lparr>status = 1, killed_by = None, stdout = [], stderr = [],
    terminal = cooked_terminal,
    reset_runs = 1, loop_end = Some (Timeout, ls)\<rparr>"
  have m: "main [''waitexit'', ''-s'', ''-f'', ''3''] quiet_terminal = Inr pe'"
    unfolding pe'_def ls_def by (rule main_s_f)
  have s: "\<exists>r\<in>set (getopt_results [''waitexit'', ''-s'', ''-f'', ''3'']). getopt_char r = CHR ''s''"
    by (simp add: results_s_f getopt_char_def)
  note t = silent_writes_nothing [of silent_three_seconds key_in_second_tick
      "[''waitexit'', ''-s'', ''-f'', ''3'']" quiet_terminal pe']
  from t silent_three_seconds_silent
  have a: "\<exists>pe. run silent_three_seconds key_in_second_tick = Inr pe \<and> stdout pe = []" by blast
  from t s m have "stdout pe' = []" by blast
  with m have b: "\<exists>pe. main [''waitexit'', ''-s'', ''-f'', ''3''] quiet_terminal = Inr pe \<and> stdout pe = []"
    by blast
  from silent_three_seconds_silent a results_s_f b show ?thesis by blast
qed

subsection \<open>Rejected and accepted configurations\<close>

text \<open>
  What \<^verbatim>\<open>parse_arguments\<close> does reject: an option with no number at the start of its
  argument or a number outside 0..255 for \<^verbatim>\<open>-e\<close>, a template of more than 255 bytes, an
  option \<^verbatim>\<open>getopt\<close> refuses, a countdown with no number at its start or a negative one.
  (A number that does not fit \<^verbatim>\<open>int\<close> is not rejected: the conversion is undefined.)
\<close>

lemma main_invalid:
  assumes "(\<exists>r\<in>set (getopt_results argv). invalid_option r)
           \<or> invalid_countdown (remaining_arguments argv)"
  shows "main argv e = Inl Conversion_overflow
         \<or> (\<exists>pe msg. main argv e = Inr pe \<and> parse_arguments argv = Rejected msg \<and> msg \<noteq> []
               \<and> stderr pe = msg \<and> stdout pe = [] \<and> status pe = 1 \<and> loop_end pe = None)"
proof (cases "parse_arguments argv")
  case (Undefined f)
  with parse_arguments_undefined [OF Undefined] show ?thesis by (simp add: main_def)
next
  case (Rejected msg)
  from main_rejected [OF Rejected, of e] parse_arguments_rejected [OF Rejected] Rejected
  show ?thesis by (simp add: early_return_fields)
next
  case (Accepted st)
  with parse_arguments_invalid [OF assms, of st] show ?thesis by simp
qed

text \<open>
  An absent countdown is accepted by \<^verbatim>\<open>parse_arguments\<close>; \<^verbatim>\<open>main\<close> then ends without
  starting the loop: after \<^verbatim>\<open>print_usage\<close> with status 0 when \<^verbatim>\<open>-h\<close> was given,
  otherwise with a message on standard error and status 1.
\<close>

lemma main_no_countdown:
  assumes "remaining_arguments argv = []" and "parse_arguments argv = Accepted st"
  shows "main argv e =
           (if \<exists>r\<in>set (getopt_results argv). getopt_char r = CHR ''h'' then
              (case usage_text e of
                 None \<Rightarrow> Inl Usage_overrun
               | Some text \<Rightarrow> Inr (early_return 0 text (process_start e)))
            else Inr (early_return 1 missing_countdown_message (process_start e)))"
proof -
  from parse_arguments_accepted [OF assms(2)] obtain st0 where
    a: "parse_options (program_name argv) (getopt_results argv) initial_settings = Accepted st0" and
    b: "parse_countdown (remaining_arguments argv) st0 = Accepted st" by blast
  from parse_countdown_accepted(4) [OF b assms(1)] have eq: "st = st0" .
  from parse_options_countdown [OF a] eq have c: "countdown st < 0"
    by (simp add: initial_settings_def)
  from parse_options_help [OF a] eq
  have h: "bit (opts st) 1 \<longleftrightarrow> (\<exists>r\<in>set (getopt_results argv). getopt_char r = CHR ''h'')"
    by (auto simp: initial_settings_def)
  from main_accepted [OF assms(2), of e] c h show ?thesis by simp
qed

lemma example_rejected_configurations:
  "map_sum id status (main [''waitexit'', ''-e'', ''256'', ''3''] quiet_terminal) = Inr 1
   \<and> map_sum id status (main [''waitexit'', ''-e'', ''-1'', ''3''] quiet_terminal) = Inr 1
   \<and> map_sum id status (main [''waitexit'', ''-e'', ''x'', ''3''] quiet_terminal) = Inr 1
   \<and> map_sum id status (main [''waitexit'', ''-x'', ''3''] quiet_terminal) = Inr 1
   \<and> map_sum id status (main [''waitexit'', ''-e''] quiet_terminal) = Inr 1
   \<and> map_sum id status (main [''waitexit'', ''abc''] quiet_terminal) = Inr 1
   \<and> map_sum id status (main [''waitexit'', ''--'', ''-3''] quiet_terminal) = Inr 1
   \<and> map_sum id status (main [''waitexit''] quiet_terminal) = Inr 1
   \<and> map_sum id stderr (main [''waitexit''] quiet_terminal) = Inr missing_countdown_message
   \<and> map_sum id loop_reason (main [''waitexit'', ''-e'', ''256'', ''3''] quiet_terminal) = Inr None"
  by code_simp

lemma scan_beyond_int: "sscanf_i ''4294967301'' = Some 4294967301"
  by (simp add: sscanf_i_def isspace_def scan_unsigned_def is_digit_of_def digit_value_def)

lemma getopt_e_beyond_int:
  "getopt_scan [] [''-e'', ''4294967301'', ''3''] [] = ([Opt (CHR ''e'') ''4294967301''], [''3''])"
  by (simp add: optstring_with_argument_def)

lemma parse_e_beyond_int:
  "parse_arguments [''waitexit'', ''-e'', ''4294967301'', ''3''] = Undefined Conversion_overflow"
proof -
  let ?argv = "[''waitexit'', ''-e'', ''4294967301'', ''3'']"
  have g: "getopt_results ?argv = [Opt (CHR ''e'') ''4294967301'']"
    using getopt_e_beyond_int by (simp add: getopt_results_def del: getopt_scan.simps)
  have o: "parse_options (program_name ?argv) [Opt (CHR ''e'') ''4294967301''] initial_settings
             = Undefined Conversion_overflow"
    by (simp add: parse_option_def getopt_char_def getopt_optarg_def scan_beyond_int
        int_representable_def INT_MIN_def INT_MAX_def)
  show ?thesis by (simp only: parse_arguments_def g o parse_result.case)
qed

lemma main_e_beyond_int:
  "main [''waitexit'', ''-e'', ''4294967301'', ''3''] e = Inl Conversion_overflow"
  by (simp add: main_def parse_e_beyond_int)

text \<open>
  Claim C6 asks that a malformed exit code and a malformed countdown are rejected with
  a message on standard error and status 1, before the loop starts. The code does not do
  that for a number followed by other text: \<^verbatim>\<open>parse_arguments\<close> only tests that
  \<^verbatim>\<open>sscanf(..., "%i", &val)\<close> has converted one item, and \<^verbatim>\<open>%i\<close> stops at the first
  character that is not part of the number. So \<^verbatim>\<open>waitexit 3abc\<close> is accepted with a
  countdown of 3: the loop runs its three waits, nothing is written to standard error and
  the status is 0. Likewise \<^verbatim>\<open>waitexit -s -e 5x 2.5\<close> waits two seconds and ends with
  status 5. An exit code that does not fit \<^verbatim>\<open>int\<close> is not rejected either: its conversion
  is undefined.
\<close>

theorem malformed_numbers_accepted:
  "parse_arguments [''waitexit'', ''3abc''] = Accepted (initial_settings\<lparr>countdown := 3\<rparr>)
   \<and> map_sum id status (main [''waitexit'', ''3abc''] quiet_terminal) = Inr 0
   \<and> map_sum id stderr (main [''waitexit'', ''3abc''] quiet_terminal) = Inr []
   \<and> map_sum id loop_reason (main [''waitexit'', ''3abc''] quiet_terminal) = Inr (Some Timeout)
   \<and> map_sum id loop_waits (main [''waitexit'', ''3abc''] quiet_terminal) = Inr (Some 3)
   \<and> map_sum id status (main [''waitexit'', ''-s'', ''-e'', ''5x'', ''2.5''] quiet_terminal) = Inr 5
   \<and> map_sum id stderr (main [''waitexit'', ''-s'', ''-e'', ''5x'', ''2.5''] quiet_terminal) = Inr []
   \<and> map_sum id loop_waits (main [''waitexit'', ''-s'', ''-e'', ''5x'', ''2.5''] quiet_terminal)
       = Inr (Some 2)
   \<and> main [''waitexit'', ''-e'', ''4294967301'', ''3''] quiet_terminal = Inl Conversion_overflow"
proof -
  have "parse_arguments [''waitexit'', ''3abc''] = Accepted (initial_settings\<lparr>countdown := 3\<rparr>)
   \<and> map_sum id status (main [''waitexit'', ''3abc''] quiet_terminal) = Inr 0
   \<and> map_sum id stderr (main [''waitexit'', ''3abc''] quiet_terminal) = Inr []
   \<and> map_sum id loop_reason (main [''waitexit'', ''3abc''] quiet_terminal) = Inr (Some Timeout)
   \<and> map_sum id loop_waits (main [''waitexit'', ''3abc''] quiet_terminal) = Inr (Some 3)
   \<and> map_sum id status (main [''waitexit'', ''-s'', ''-e'', ''5x'', ''2.5''] quiet_terminal) = Inr 5
   \<and> map_sum id stderr (main [''waitexit'', ''-s'', ''-e'', ''5x'', ''2.5''] quiet_terminal) = Inr []
   \<and> map_sum id loop_waits (main [''waitexit'', ''-s'', ''-e'', ''5x'', ''2.5''] quiet_terminal)
       = Inr (Some 2)"
    by code_simp
  with main_e_beyond_int [of quiet_terminal] show ?thesis by blast
qed

subsection \<open>Terminal mode\<close>

lemma and_not_or_cleared:
  fixes w a b :: "32 word"
  shows "(w AND NOT (a OR b)) AND a = 0" and "(w AND NOT (a OR b)) AND b = 0"
  by (rule bit_word_eqI, auto simp: bit_simps)+

lemma lflag_cleared:
  fixes w :: "32 word"
  shows "(w AND NOT (ECHO OR ICANON)) AND ECHO = 0"
    and "(w AND NOT (ECHO OR ICANON)) AND ICANON = 0"
  by (rule and_not_or_cleared)+

lemma init_termio_tty:
  assumes "isatty tty"
  shows "init_termio tty =
           tty\<lparr>default_term := attrs tty,
               atexit_fns := Reset_termio # atexit_fns tty,
               attrs := (attrs tty)\<lparr>c_lflag := c_lflag (attrs tty) AND NOT (ECHO OR ICANON)\<rparr>\<rparr>"
  using assms by (simp add: init_termio_def tcsetattr_def Let_def)

lemma init_termio_not_tty: "\<not> isatty tty \<Longrightarrow> init_termio tty = tty"
  by (simp add: init_termio_def)

lemma reset_termio_twice:
  "attrs (reset_termio (reset_termio tty)) = attrs (reset_termio tty)"
  "default_term (reset_termio tty) = default_term tty"
  by (simp_all add: reset_termio_def tcsetattr_def)

lemma reset_termio_not_tty: "\<not> isatty tty \<Longrightarrow> attrs (reset_termio tty) = attrs tty"
  by (simp add: reset_termio_def tcsetattr_def)

lemma process_exit_after_init:
  "attrs (process_exit (init_termio (process_start e))) = tty_attrs e"
  "resets (process_exit (init_termio (process_start e))) = (if stdin_isatty e then 1 else 0)"
  by (simp_all add: process_exit_def init_termio_def process_start_def tcsetattr_def
      reset_termio_def Let_def)

lemma init_termio_start:
  "attrs (init_termio (process_start e)) =
     (if stdin_isatty e
      then (tty_attrs e)\<lparr>c_lflag := c_lflag (tty_attrs e) AND NOT (ECHO OR ICANON)\<rparr>
      else tty_attrs e)"
  "resets (init_termio (process_start e)) = 0"
  by (simp_all add: init_termio_def process_start_def tcsetattr_def Let_def)

lemma countdown_loop_killed:
  "countdown_loop st ev l = Inr (Killed_in_wait n, ls) \<Longrightarrow> \<exists>k. ev k = Killed_by_signal n"
proof (induction st ev l rule: countdown_loop.induct)
  case (1 st ev l)
  show ?case
  proof (cases "0 < seconds_left l")
    case False
    with "1.prems" show ?thesis by (simp add: countdown_loop_done)
  next
    case True
    from "1.prems"(1) True obtain b l1 where
      b: "loop_body st ev l = Inr (b, l1)" and
      c: "(case b of Next_test \<Rightarrow> countdown_loop st ev l1
           | Break \<Rightarrow> Inr (Done Interrupted, l1)
           | Killed m \<Rightarrow> Inr (Killed_in_wait m, l1)) = Inr (Killed_in_wait n, ls)"
      by (subst (asm) countdown_loop.simps) (auto split: sum.splits)
    show ?thesis
    proof (cases b)
      case Break
      with c show ?thesis by simp
    next
      case (Killed m)
      with c have "m = n" by simp
      with b Killed have "ev (waits l) = Killed_by_signal n"
        by (auto simp: loop_body_def Let_def wait_for_one_second_or_input_def
                 split: if_splits wait_event.splits)
      then show ?thesis ..
    next
      case Next_test
      with c have r: "countdown_loop st ev l1 = Inr (Killed_in_wait n, ls)" by simp
      from "1.IH" [OF True b [unfolded Next_test] refl refl r] show ?thesis .
    qed
  qed
qed

lemma main_killed_by:
  assumes "main argv e = Inr pe"
  shows "killed_by pe = None \<or> loop_end pe = None"
proof (cases "parse_arguments argv")
  case (Undefined f)
  with assms show ?thesis by (simp add: main_def)
next
  case (Rejected msg)
  with assms main_rejected [OF Rejected, of e] show ?thesis by (auto simp: early_return_fields)
next
  case (Accepted st)
  show ?thesis
  proof (cases "bit (opts st) 1 \<or> countdown st < 0")
    case True
    with assms main_accepted [OF Accepted, of e] show ?thesis
      by (auto simp: early_return_fields split: if_splits option.splits)
  next
    case False
    with assms main_accepted [OF Accepted, of e] have "run st e = Inr pe" by simp
    from run_cases [OF this] show ?thesis by auto
  qed
qed

lemma main_terminal:
  assumes "main argv e = Inr pe"
  shows "case killed_by pe of
           None \<Rightarrow>
             terminal pe = tty_attrs e
             \<and> reset_runs pe = (if stdin_isatty e \<and> loop_end pe \<noteq> None then 1 else 0)
         | Some n \<Rightarrow>
             (\<exists>k. wait_events e k = Killed_by_signal n)
             \<and> reset_runs pe = 0
             \<and> terminal pe =
                 (if stdin_isatty e
                  then (tty_attrs e)\<lparr>c_lflag := c_lflag (tty_attrs e) AND NOT (ECHO OR ICANON)\<rparr>
                  else tty_attrs e)"
proof (cases "parse_arguments argv")
  case (Undefined f)
  with assms show ?thesis by (simp add: main_def)
next
  case (Rejected msg)
  with assms main_rejected [OF Rejected, of e] show ?thesis by (auto simp: early_return_fields)
next
  case (Accepted st)
  show ?thesis
  proof (cases "bit (opts st) 1 \<or> countdown st < 0")
    case True
    with assms main_accepted [OF Accepted, of e] show ?thesis
      by (auto simp: early_return_fields split: if_splits option.splits)
  next
    case False
    with assms main_accepted [OF Accepted, of e] have "run st e = Inr pe" by simp
    from run_cases [OF this] show ?thesis
    proof (elim disjE exE conjE)
      fix reason ls
      assume "loop_end pe = Some (reason, ls)" "killed_by pe = None"
        "terminal pe = attrs (process_exit (init_termio (process_start e)))"
        "reset_runs pe = resets (process_exit (init_termio (process_start e)))"
      then show ?thesis by (simp add: process_exit_after_init)
    next
      fix n ls
      assume "countdown_loop st (wait_events e) (loop_entry st) = Inr (Killed_in_wait n, ls)"
        and k: "killed_by pe = Some n"
        "terminal pe = attrs (init_termio (process_start e))"
        "reset_runs pe = resets (init_termio (process_start e))"
      from countdown_loop_killed [OF this(1)] have "\<exists>k. wait_events e k = Killed_by_signal n" .
      with k show ?thesis by (simp add: init_termio_start)
    qed
  qed
qed

lemma main_s_interrupted:
  "main [''waitexit'', ''-s'', ''3''] interrupt_in_second_tick =
     Inr \<lparr>status = 130, killed_by = Some 2, stdout = [], stderr = [],
          terminal = cooked_terminal\<lparr>c_lflag := 0x8A31\<rparr>, reset_runs = 0, loop_end = None\<rparr>"
  by code_simp

text \<open>
  Claim C8, amended. \<^verbatim>\<open>init_termio\<close> is called once, after the arguments have been
  validated. On a terminal it saves the attributes in \<^verbatim>\<open>default_term\<close>, registers
  \<^verbatim>\<open>reset_termio\<close> with \<^verbatim>\<open>atexit\<close> and clears \<^verbatim>\<open>ECHO\<close> and \<^verbatim>\<open>ICANON\<close>, leaving the
  other attributes alone; \<^verbatim>\<open>reset_termio\<close> restores the saved attributes, and running
  it twice gives the same attributes as running it once. When standard input is not a
  terminal, \<^verbatim>\<open>init_termio\<close> changes and registers nothing and \<^verbatim>\<open>reset_termio\<close> leaves
  the attributes alone.

  When \<^verbatim>\<open>main\<close> returns, the attributes of the terminal are those the process started
  with; \<^verbatim>\<open>reset_termio\<close> has run exactly once when standard input is a terminal and the
  run has reached the loop, and not at all otherwise (rejected arguments, \<^verbatim>\<open>-h\<close>, missing
  countdown: the terminal was never changed).

  When the process is ended by a signal, which happens in a wait of the loop, nothing is
  released: the program installs no signal handler, \<^verbatim>\<open>reset_termio\<close> does not run, and a
  terminal is left with \<^verbatim>\<open>ECHO\<close> and \<^verbatim>\<open>ICANON\<close> cleared.
\<close>

theorem terminal_mode_restored:
  "(main argv e = Inr pe \<longrightarrow>
      (case killed_by pe of
         None \<Rightarrow>
           terminal pe = tty_attrs e
           \<and> reset_runs pe = (if stdin_isatty e \<and> loop_end pe \<noteq> None then 1 else 0)
       | Some n \<Rightarrow>
           (\<exists>k. wait_events e k = Killed_by_signal n)
           \<and> reset_runs pe = 0
           \<and> terminal pe =
               (if stdin_isatty e
                then (tty_attrs e)\<lparr>c_lflag := c_lflag (tty_attrs e) AND NOT (ECHO OR ICANON)\<rparr>
                else tty_attrs e)))
   \<and> (isatty tty \<longrightarrow>
        default_term (init_termio tty) = attrs tty
        \<and> atexit_fns (init_termio tty) = Reset_termio # atexit_fns tty
        \<and> c_lflag (attrs (init_termio tty)) = c_lflag (attrs tty) AND NOT (ECHO OR ICANON)
        \<and> c_lflag (attrs (init_termio tty)) AND ECHO = 0
        \<and> c_lflag (attrs (init_termio tty)) AND ICANON = 0
        \<and> c_iflag (attrs (init_termio tty)) = c_iflag (attrs tty)
        \<and> c_oflag (attrs (init_termio tty)) = c_oflag (attrs tty)
        \<and> c_cflag (attrs (init_termio tty)) = c_cflag (attrs tty)
        \<and> c_cc (attrs (init_termio tty)) = c_cc (attrs tty)
        \<and> attrs (reset_termio (init_termio tty)) = attrs tty)
   \<and> attrs (reset_termio (reset_termio tty)) = attrs (reset_termio tty)
   \<and> (\<not> isatty tty \<longrightarrow>
        init_termio tty = tty \<and> attrs (reset_termio tty) = attrs tty
        \<and> process_exit (init_termio tty) = process_exit tty)"
proof (intro conjI impI)
  assume "main argv e = Inr pe"
  then show "case killed_by pe of
         None \<Rightarrow>
           terminal pe = tty_attrs e
           \<and> reset_runs pe = (if stdin_isatty e \<and> loop_end pe \<noteq> None then 1 else 0)
       | Some n \<Rightarrow>
           (\<exists>k. wait_events e k = Killed_by_signal n)
           \<and> reset_runs pe = 0
           \<and> terminal pe =
               (if stdin_isatty e
                then (tty_attrs e)\<lparr>c_lflag := c_lflag (tty_attrs e) AND NOT (ECHO OR ICANON)\<rparr>
                else tty_attrs e)"
    by (rule main_terminal)
qed (simp_all add: init_termio_tty init_termio_not_tty reset_termio_not_tty lflag_cleared
       reset_termio_def tcsetattr_def process_exit_def
       del: bit.de_Morgan_disj)

theorem terminal_mode_restored_witness:
  "isatty (process_start quiet_terminal)
   \<and> \<not> isatty (process_start redirected_input)
   \<and> (\<exists>pe. main [''waitexit'', ''-s'', ''-f'', ''3''] quiet_terminal = Inr pe
         \<and> killed_by pe = None \<and> terminal pe = tty_attrs quiet_terminal \<and> reset_runs pe = 1)
   \<and> (\<exists>pe. main [''waitexit'', ''-s'', ''3''] interrupt_in_second_tick = Inr pe
         \<and> killed_by pe = Some 2 \<and> reset_runs pe = 0
         \<and> c_lflag (tty_attrs interrupt_in_second_tick) = 0x8A3B
         \<and> c_lflag (terminal pe) = 0x8A31)
   \<and> default_term (init_termio (process_start quiet_terminal)) = cooked_terminal
   \<and> c_lflag (attrs (init_termio (process_start quiet_terminal))) = 0x8A31
   \<and> attrs (reset_termio (init_termio (process_start quiet_terminal))) = cooked_terminal
   \<and> init_termio (process_start redirected_input) = process_start redirected_input"
proof -
  define ls where "ls = \<lparr>seconds_left = 0, waits = 3, out = [], history = [3, 2, 1, 0 :: int]\<rparr>"
  define pe where "pe = \<lparr>status = 1, killed_by = None, stdout = [], stderr = [],
    terminal = cooked_terminal, reset_runs = 1, loop_end = Some (Timeout, ls)\<rparr>"
  define pk where "pk = \<lparr>status = 130, killed_by = Some 2, stdout = [], stderr = [],
    terminal = cooked_terminal\<lparr>c_lflag := 0x8A31\<rparr>, reset_runs = 0, loop_end = None\<rparr>"
  have m: "main [''waitexit'', ''-s'', ''-f'', ''3''] quiet_terminal = Inr pe"
    unfolding pe_def ls_def by (rule main_s_f)
  have mk: "main [''waitexit'', ''-s'', ''3''] interrupt_in_second_tick = Inr pk"
    unfolding pk_def by (rule main_s_interrupted)
  have l: "loop_end pe \<noteq> None" "killed_by pe = None" by (simp_all add: pe_def)
  have lk: "killed_by pk = Some 2" by (simp add: pk_def)
  have y: "stdin_isatty quiet_terminal" "stdin_isatty interrupt_in_second_tick"
    by (simp_all add: quiet_terminal_def interrupt_in_second_tick_def)
  note t1 = terminal_mode_restored [of "[''waitexit'', ''-s'', ''-f'', ''3'']" quiet_terminal pe
      "process_start quiet_terminal"]
  note t2 = terminal_mode_restored [of "[''waitexit'', ''-s'', ''-f'', ''3'']" quiet_terminal pe
      "process_start redirected_input"]
  note t3 = terminal_mode_restored [of "[''waitexit'', ''-s'', ''3'']" interrupt_in_second_tick pk
      "process_start quiet_terminal"]
  from t1 m l y have a: "terminal pe = tty_attrs quiet_terminal \<and> reset_runs pe = 1" by simp
  have f: "c_lflag cooked_terminal AND NOT (ECHO OR ICANON) = 0x8A31"
    by (simp add: cooked_terminal_def ECHO_def ICANON_def)
  have f0: "c_lflag (tty_attrs interrupt_in_second_tick) = 0x8A3B"
    "tty_attrs interrupt_in_second_tick = cooked_terminal"
    by (simp_all add: interrupt_in_second_tick_def quiet_terminal_def cooked_terminal_def)
  from t3 mk lk y have "reset_runs pk = 0
      \<and> terminal pk = (tty_attrs interrupt_in_second_tick)
           \<lparr>c_lflag := c_lflag (tty_attrs interrupt_in_second_tick) AND NOT (ECHO OR ICANON)\<rparr>"
    by simp
  with f f0 have k: "reset_runs pk = 0 \<and> c_lflag (terminal pk) = 0x8A31" by simp
  from t1 quiet_terminal_tty have
    b: "default_term (init_termio (process_start quiet_terminal)) = attrs (process_start quiet_terminal)"
    and c: "c_lflag (attrs (init_termio (process_start quiet_terminal)))
            = c_lflag (attrs (process_start quiet_terminal)) AND NOT (ECHO OR ICANON)"
    and d: "attrs (reset_termio (init_termio (process_start quiet_terminal)))
            = attrs (process_start quiet_terminal)"
    by blast+
  have e: "attrs (process_start quiet_terminal) = cooked_terminal"
    by (simp add: process_start_def quiet_terminal_def)
  from t2 redirected_input_not_tty
  have g: "init_termio (process_start redirected_input) = process_start redirected_input" by blast
  have x1: "\<exists>pe. main [''waitexit'', ''-s'', ''-f'', ''3''] quiet_terminal = Inr pe
         \<and> killed_by pe = None \<and> terminal pe = tty_attrs quiet_terminal \<and> reset_runs pe = 1"
    using m l(2) a by blast
  have x2: "\<exists>pe. main [''waitexit'', ''-s'', ''3''] interrupt_in_second_tick = Inr pe
         \<and> killed_by pe = Some 2 \<and> reset_runs pe = 0
         \<and> c_lflag (tty_attrs interrupt_in_second_tick) = 0x8A3B
         \<and> c_lflag (terminal pe) = 0x8A31"
    using mk lk k f0(1) by blast
  from quiet_terminal_tty redirected_input_not_tty x1 x2 b c d e f g show ?thesis by simp
qed

text \<open>
  The claim as it was stated fails on two exit paths. On an early error return
  \<^verbatim>\<open>reset_termio\<close> does not run, not even once, although standard input is a terminal.
  And when SIGINT ends the process in the second wait of \<^verbatim>\<open>waitexit -s 3\<close>,
  \<^verbatim>\<open>reset_termio\<close> does not run either: the terminal had echo and canonical mode
  enabled when the process started and has them disabled when it is gone.
\<close>

theorem no_reset_on_early_return_or_signal:
  "stdin_isatty quiet_terminal
   \<and> map_sum id status (main [''waitexit'', ''-e'', ''256'', ''3''] quiet_terminal) = Inr 1
   \<and> map_sum id reset_runs (main [''waitexit'', ''-e'', ''256'', ''3''] quiet_terminal) = Inr 0
   \<and> stdin_isatty interrupt_in_second_tick
   \<and> echo_enabled (tty_attrs interrupt_in_second_tick)
   \<and> canonical_mode (tty_attrs interrupt_in_second_tick)
   \<and> map_sum id killed_by (main [''waitexit'', ''-s'', ''3''] interrupt_in_second_tick)
       = Inr (Some SIGINT)
   \<and> map_sum id reset_runs (main [''waitexit'', ''-s'', ''3''] interrupt_in_second_tick) = Inr 0
   \<and> map_sum id (echo_enabled \<circ> terminal)
        (main [''waitexit'', ''-s'', ''3''] interrupt_in_second_tick) = Inr False
   \<and> map_sum id (canonical_mode \<circ> terminal)
        (main [''waitexit'', ''-s'', ''3''] interrupt_in_second_tick) = Inr False"
proof -
  have a: "stdin_isatty quiet_terminal
     \<and> map_sum id status (main [''waitexit'', ''-e'', ''256'', ''3''] quiet_terminal) = Inr 1
     \<and> map_sum id reset_runs (main [''waitexit'', ''-e'', ''256'', ''3''] quiet_terminal) = Inr 0
     \<and> stdin_isatty interrupt_in_second_tick"
    by code_simp
  have b: "echo_enabled (tty_attrs interrupt_in_second_tick)
     \<and> canonical_mode (tty_attrs interrupt_in_second_tick)"
    by (simp add: echo_enabled_def canonical_mode_def interrupt_in_second_tick_def
        quiet_terminal_def cooked_terminal_def ECHO_def ICANON_def)
  have c: "map_sum id killed_by (main [''waitexit'', ''-s'', ''3''] interrupt_in_second_tick)
       = Inr (Some SIGINT)
     \<and> map_sum id reset_runs (main [''waitexit'', ''-s'', ''3''] interrupt_in_second_tick) = Inr 0"
    by (simp add: main_s_interrupted SIGINT_def)
  have d: "map_sum id (echo_enabled \<circ> terminal)
        (main [''waitexit'', ''-s'', ''3''] interrupt_in_second_tick) = Inr False
     \<and> map_sum id (canonical_mode \<circ> terminal)
        (main [''waitexit'', ''-s'', ''3''] interrupt_in_second_tick) = Inr False"
    by (simp add: main_s_interrupted echo_enabled_def canonical_mode_def ECHO_def ICANON_def)
  from a b c d show ?thesis by blast
qed

subsection \<open>The line buffer\<close>

text \<open>
  \<^verbatim>\<open>main\<close> renders the line into \<^verbatim>\<open>char msg[1024]\<close>. A template \<^verbatim>\<open>parse_arguments\<close>
  accepts has at most 255 bytes. With at most one placeholder, as the settings of the
  specification require, the line has at most 265 bytes. With any number of placeholders
  the line is at most four times as long as the template when the number has at most
  eight digits, so \<^verbatim>\<open>msg\<close> is never overrun for a countdown below 100000000 seconds. That
  bound is sharp: with 127 placeholders and a countdown of 100000000 the first line has
  1143 bytes.
\<close>

lemma decimal_length: "0 < k \<Longrightarrow> n < 10 ^ k \<Longrightarrow> length (decimal n) \<le> k"
proof (induction k arbitrary: n)
  case 0
  then show ?case by simp
next
  case (Suc k)
  show ?case
  proof (cases "n < 10")
    case True
    then show ?thesis by (subst decimal.simps) simp
  next
    case False
    then have "0 < k" using Suc.prems by (cases k) auto
    moreover have "n div 10 < 10 ^ k" using Suc.prems by (simp add: less_mult_imp_div_less mult.commute)
    ultimately have "length (decimal (n div 10)) \<le> k" by (rule Suc.IH)
    with False show ?thesis by (subst decimal.simps) simp
  qed
qed

lemma render_length:
  "2 * length (render t s) \<le> max 2 (length (sprintf_d s)) * length t"
proof (induction t s rule: render.induct)
  case (1 s)
  show ?case by simp
next
  case (2 c cs s)
  let ?m = "max 2 (length (sprintf_d s))"
  show ?case
  proof (cases "c = CHR 0x0A \<or> c = CHR 0x0D")
    case True
    then have r: "render (c # cs) s = render cs s" by auto
    from 2(1) [OF True] have "2 * length (render cs s) \<le> ?m * length cs" .
    then show ?thesis unfolding r by (simp add: algebra_simps)
  next
    case nlb: False
    show ?thesis
    proof (cases "c = CHR ''%'' \<and> cs \<noteq> [] \<and> hd cs = CHR ''S''")
      case True
      then obtain cs' where cs: "cs = CHR ''S'' # cs'" by (cases cs) auto
      from nlb True cs have r: "render (c # CHR ''S'' # cs') s = sprintf_d s @ render cs' s" by auto
      from 2(2) [OF nlb True] cs have "2 * length (render cs' s) \<le> ?m * length cs'" by simp
      moreover have "length (sprintf_d s) \<le> ?m" by simp
      ultimately have "2 * (length (sprintf_d s) + length (render cs' s)) \<le> ?m * (2 + length cs')"
        by (simp add: distrib_left)
      then show ?thesis unfolding cs r by simp
    next
      case False
      from nlb False have r: "render (c # cs) s = c # render cs s" by auto
      from 2(3) [OF nlb False] have "2 * length (render cs s) \<le> ?m * length cs" .
      moreover have "2 \<le> ?m" by simp
      ultimately have "2 * (1 + length (render cs s)) \<le> ?m * (1 + length cs)"
        by (simp add: distrib_left)
      then show ?thesis unfolding r by simp
    qed
  qed
qed

lemma line_fits_short_countdown:
  assumes "length (template st) \<le> 255" and "0 \<le> s" and "s < 100000000"
  shows "line_fits st s"
proof -
  have "nat s < 10 ^ 8" using assms(2,3) by simp
  then have "length (decimal (nat s)) \<le> 8" by (intro decimal_length) simp_all
  then have "length (sprintf_d s) \<le> 8" using assms(2) by (simp add: sprintf_d_def)
  then have "max 2 (length (sprintf_d s)) * length (template st) \<le> 8 * 255"
    using assms(1) by (intro mult_mono) simp_all
  with render_length [of "template st" s] have "length (render (template st) s) \<le> 1020" by simp
  then show ?thesis by (simp add: line_fits_def prepare_message_eq_render msg_size_def)
qed

lemma render_length_placeholders:
  "length (render t s) + 2 * placeholders t \<le> length t + placeholders t * length (sprintf_d s)"
proof (induction t s rule: render.induct)
  case (1 s)
  show ?case by simp
next
  case (2 c cs s)
  show ?case
  proof (cases "c = CHR 0x0A \<or> c = CHR 0x0D")
    case True
    then have r: "render (c # cs) s = render cs s" "placeholders (c # cs) = placeholders cs"
      by auto
    from 2(1) [OF True] show ?thesis unfolding r by simp
  next
    case nlb: False
    show ?thesis
    proof (cases "c = CHR ''%'' \<and> cs \<noteq> [] \<and> hd cs = CHR ''S''")
      case True
      then obtain cs' where cs: "cs = CHR ''S'' # cs'" by (cases cs) auto
      from nlb True cs have r: "render (c # CHR ''S'' # cs') s = sprintf_d s @ render cs' s"
        "placeholders (c # CHR ''S'' # cs') = Suc (placeholders cs')" by auto
      from 2(2) [OF nlb True] cs show ?thesis unfolding cs r by simp
    next
      case False
      from nlb False have r: "render (c # cs) s = c # render cs s"
        "placeholders (c # cs) = placeholders cs" by auto
      from 2(3) [OF nlb False] show ?thesis unfolding r by simp
    qed
  qed
qed

lemma line_fits_one_placeholder:
  assumes "length (template st) \<le> 255" and "placeholders (template st) \<le> 1"
    and "0 \<le> s" and "s \<le> INT_MAX"
  shows "line_fits st s"
proof -
  have "nat s < 10 ^ 10" using assms(3,4) by (simp add: INT_MAX_def)
  then have "length (decimal (nat s)) \<le> 10" by (intro decimal_length) simp_all
  then have d: "length (sprintf_d s) \<le> 10" using assms(3) by (simp add: sprintf_d_def)
  have "placeholders (template st) * length (sprintf_d s) \<le> 1 * 10"
    using assms(2) d by (intro mult_mono) simp_all
  with render_length_placeholders [of "template st" s] assms(1)
  have "length (render (template st) s) \<le> 265" by simp
  then show ?thesis by (simp add: line_fits_def prepare_message_eq_render msg_size_def)
qed

lemma default_template_one_placeholder: "placeholders DEFAULT_MSG_TEMPLATE = 1"
  by code_simp

lemma line_fits_default_template:
  assumes "template st = DEFAULT_MSG_TEMPLATE" and "0 \<le> s" and "s \<le> INT_MAX"
  shows "line_fits st s"
proof -
  have "length (template st) \<le> 255"
    using assms(1) by (simp add: DEFAULT_MSG_TEMPLATE_def)
  moreover have "placeholders (template st) \<le> 1"
    using assms(1) default_template_one_placeholder by simp
  ultimately show ?thesis using assms(2,3) by (rule line_fits_one_placeholder)
qed

lemma parse_arguments_template:
  assumes "parse_arguments argv = Accepted st"
  shows "length (template st) \<le> 255"
proof -
  from parse_arguments_accepted [OF assms] obtain st0 where
    a: "parse_options (program_name argv) (getopt_results argv) initial_settings = Accepted st0" and
    b: "parse_countdown (remaining_arguments argv) st0 = Accepted st" by blast
  have "length (template initial_settings) \<le> 255"
    by (simp add: initial_settings_def DEFAULT_MSG_TEMPLATE_def)
  from parse_options_template [OF a this] parse_countdown_accepted(3) [OF b] show ?thesis by simp
qed

lemma render_replicate:
  "length (render (concat (replicate n ''%S'')) s) = n * length (sprintf_d s)"
  by (induction n) simp_all

lemma length_sprintf_d_1e8: "length (sprintf_d 100000000) = 9"
  by (simp add: sprintf_d_def decimal.simps)

lemma length_many_placeholders: "length many_placeholders = 254"
  unfolding many_placeholders_def by (simp only: length_concat) (simp add: sum_list_replicate)


lemma many_placeholders_overrun:
  "\<not> line_fits (initial_settings\<lparr>countdown := 100000000, template := many_placeholders\<rparr>) 100000000"
  by (simp add: line_fits_def prepare_message_eq_render many_placeholders_def render_replicate
      length_sprintf_d_1e8 msg_size_def)

lemma scan_1e8: "sscanf_i ''100000000'' = Some 100000000"
  by (simp add: sscanf_i_def isspace_def scan_unsigned_def is_digit_of_def digit_value_def)

lemma getopt_m_template:
  "getopt_scan [] [''-m'', t, ''100000000''] [] = ([Opt (CHR ''m'') t], [''100000000''])"
  by (simp add: optstring_with_argument_def)

lemma parse_m_template:
  assumes "length t \<le> 255"
  shows "parse_arguments [''waitexit'', ''-m'', t, ''100000000'']
           = Accepted (initial_settings\<lparr>countdown := 100000000, template := t\<rparr>)"
proof -
  let ?argv = "[''waitexit'', ''-m'', t, ''100000000'']"
  have g: "getopt_results ?argv = [Opt (CHR ''m'') t]"
    and r: "remaining_arguments ?argv = [''100000000'']"
    using getopt_m_template [of t]
    by (simp_all add: getopt_results_def remaining_arguments_def del: getopt_scan.simps)
  have o: "parse_options (program_name ?argv) [Opt (CHR ''m'') t] initial_settings
             = Accepted (initial_settings\<lparr>template := t\<rparr>)"
    using assms
    by (simp add: parse_option_def getopt_char_def getopt_optarg_def strnlen_def)
  have c: "parse_countdown [''100000000''] (initial_settings\<lparr>template := t\<rparr>)
             = Accepted (initial_settings\<lparr>countdown := 100000000, template := t\<rparr>)"
    by (simp add: parse_countdown_def scan_1e8 int_representable_def INT_MIN_def INT_MAX_def)
  show ?thesis by (simp only: parse_arguments_def list.sel g r o c parse_result.case)
qed

lemma overrun_settings_run:
  "run (initial_settings\<lparr>countdown := 100000000, template := many_placeholders\<rparr>) e
     = Inl Buffer_overrun"
proof -
  let ?st = "initial_settings\<lparr>countdown := 100000000, template := many_placeholders\<rparr>"
  have h: "\<not> silent ?st" by (simp add: initial_settings_def silent_def)
  have b: "loop_body ?st (wait_events e) (loop_entry ?st) = Inl Buffer_overrun"
    using many_placeholders_overrun h
    by (simp add: loop_body_def line_fits_def loop_entry_def)
  have "countdown_loop ?st (wait_events e) (loop_entry ?st) = Inl Buffer_overrun"
    by (subst countdown_loop.simps) (simp add: b, simp add: loop_entry_def)
  then show ?thesis by (simp add: run_def)
qed

lemma parse_many_placeholders:
  "parse_arguments [''waitexit'', ''-m'', many_placeholders, ''100000000'']
     = Accepted (initial_settings\<lparr>countdown := 100000000, template := many_placeholders\<rparr>)"
  by (rule parse_m_template) (simp add: length_many_placeholders)

lemma line_buffer_overrun:
  "main [''waitexit'', ''-m'', many_placeholders, ''100000000''] e = Inl Buffer_overrun"
proof -
  let ?st = "initial_settings\<lparr>countdown := 100000000, template := many_placeholders\<rparr>"
  have h: "\<not> bit (opts ?st) 1" "\<not> countdown ?st < 0"
    by (simp_all add: initial_settings_def)
  from main_accepted [OF parse_many_placeholders, of e] h overrun_settings_run [of e]
  show ?thesis by simp
qed

lemma length_first_line:
  "length (prepare_message many_placeholders 100000000) = 1143"
  by (simp add: prepare_message_eq_render many_placeholders_def render_replicate
      length_sprintf_d_1e8)

lemma main_never_overruns_short_countdown:
  assumes "parse_arguments argv = Accepted st" and "countdown st < 100000000"
  shows "main argv e \<noteq> Inl Buffer_overrun"
proof (cases "bit (opts st) 1 \<or> countdown st < 0")
  case True
  with main_accepted [OF assms(1), of e] show ?thesis by (auto split: option.splits)
next
  case False
  then have n: "seconds_left (loop_entry st) = int (nat (countdown st))"
    by (simp add: loop_entry_def)
  have "\<forall>s. 0 < s \<and> s \<le> seconds_left (loop_entry st) \<longrightarrow> line_fits st s"
    using parse_arguments_template [OF assms(1)] assms(2)
    by (auto intro: line_fits_short_countdown simp: loop_entry_def)
  then have f: "silent st \<or> (\<forall>s. 0 < s \<and> s \<le> seconds_left (loop_entry st) \<longrightarrow> line_fits st s)" ..
  from countdown_loop_general [OF n f, of "wait_events e"] obtain x ls where
    r: "countdown_loop st (wait_events e) (loop_entry st) = Inr (x, ls)" by blast
  have "\<exists>pe. run st e = Inr pe"
  proof (cases x)
    case (Done reason)
    from run_result [OF r [unfolded Done]] show ?thesis by simp
  next
    case (Killed_in_wait k)
    from run_killed [OF r [unfolded Killed_in_wait]] show ?thesis by simp
  qed
  with False main_accepted [OF assms(1), of e] show ?thesis by auto
qed

text \<open>
  Claim C1 says that for every countdown \<open>N \<ge> 0\<close> a run without input makes \<open>N\<close> ticks
  and ends in a timeout with \<open>N\<close> elapsed seconds. The code does that when every line it
  displays fits \<^verbatim>\<open>char msg[1024]\<close> (\<open>countdown_without_input\<close>), and not otherwise: the
  command line \<^verbatim>\<open>waitexit -m T 100000000\<close>, where \<open>T\<close> is \<^verbatim>\<open>%S\<close> written 127 times (254
  bytes), is accepted, no input arrives, and the first line, of 1143 bytes, is written
  beyond the end of \<^verbatim>\<open>msg\<close> before the first wait. The run makes no tick and does not
  end in a timeout.
\<close>

theorem run_without_input_overruns_line_buffer:
  "length many_placeholders = 254
   \<and> parse_arguments [''waitexit'', ''-m'', many_placeholders, ''100000000'']
       = Accepted (initial_settings\<lparr>countdown := 100000000, template := many_placeholders\<rparr>)
   \<and> wait_events quiet_terminal = no_input
   \<and> length (prepare_message many_placeholders 100000000) = 1143
   \<and> main [''waitexit'', ''-m'', many_placeholders, ''100000000''] quiet_terminal
       = Inl Buffer_overrun"
  using length_many_placeholders parse_many_placeholders length_first_line
    line_buffer_overrun [of quiet_terminal]
  by (simp add: quiet_terminal_def)

text \<open>
  Claim C2 says that for every \<open>N \<ge> 1\<close> input during tick \<open>k\<close> ends the loop by
  interruption with \<^verbatim>\<open>seconds_left = N - k + 1\<close>. The code does that when every line it
  displays fits \<^verbatim>\<open>char msg[1024]\<close> (\<open>interrupted_at_tick\<close>), and not otherwise: for
  \<^verbatim>\<open>waitexit -m T 100000000\<close> with the template of 127 placeholders and a key pressed
  during the first tick (\<open>k = 1\<close>), the first line is written beyond the end of \<^verbatim>\<open>msg\<close>
  before the program waits for the key. The loop is not left by \<^verbatim>\<open>break\<close>.
\<close>

theorem interrupted_run_overruns_line_buffer:
  "wait_events key_in_first_tick 0 = Select_returns 1
   \<and> \<not> length (prepare_message many_placeholders 100000000) < msg_size
   \<and> main [''waitexit'', ''-m'', many_placeholders, ''100000000''] key_in_first_tick
       = Inl Buffer_overrun"
  using length_first_line line_buffer_overrun [of key_in_first_tick]
  by (simp add: key_in_first_tick_def key_at_def msg_size_def)

text \<open>
  Claim C9 says that in every run \<^verbatim>\<open>seconds_left\<close> stays between 0 and the countdown,
  changed by the loop only, and that its final value is used for the exit status and for
  the summary. The code keeps that invariant when every line it displays fits
  \<^verbatim>\<open>char msg[1024]\<close> (\<open>seconds_left_invariant\<close>, \<open>status_and_summary\<close>), and not
  otherwise: with the template of 127 placeholders and a countdown of 100000000, whatever
  happens in the environment, the first execution of the loop body writes 1143 bytes into
  \<^verbatim>\<open>msg\<close>, that is beyond its end and over the other variables of \<^verbatim>\<open>main\<close>. No final
  value, exit status or summary is defined for such a run.
\<close>

theorem every_run_of_long_line_overruns:
  "loop_body (initial_settings\<lparr>countdown := 100000000, template := many_placeholders\<rparr>)
       (wait_events e)
       (loop_entry (initial_settings\<lparr>countdown := 100000000, template := many_placeholders\<rparr>))
     = Inl Buffer_overrun
   \<and> run (initial_settings\<lparr>countdown := 100000000, template := many_placeholders\<rparr>) e
       = Inl Buffer_overrun
   \<and> main [''waitexit'', ''-m'', many_placeholders, ''100000000''] e = Inl Buffer_overrun"
proof -
  let ?st = "initial_settings\<lparr>countdown := 100000000, template := many_placeholders\<rparr>"
  have h: "\<not> silent ?st" by (simp add: initial_settings_def silent_def)
  have "loop_body ?st (wait_events e) (loop_entry ?st) = Inl Buffer_overrun"
    using many_placeholders_overrun h
    by (simp add: loop_body_def line_fits_def loop_entry_def)
  with overrun_settings_run [of e] line_buffer_overrun [of e] show ?thesis by simp
qed

end
